theory Spec2Isabelle
  imports Complex_Main
begin

section \<open>Values\<close>

text \<open>
  The candidate extraction is whatever \<^verbatim>\<open>JSON.parse\<close> made of the model's reply, so it is
  modelled as a JSON value. A number is a rational: every finite double is one, and the
  schema rejects the infinities wherever it asks for a number. An object is an association
  list with unique keys; reading a property the object does not have gives
  \<^verbatim>\<open>undefined\<close>, which is \<open>None\<close> here.
\<close>

datatype json =
    JNull
  | JBool bool
  | JNum rat
  | JStr string
  | JArr "json list"
  | JObj "(string \<times> json) list"

fun get_prop :: "json \<Rightarrow> string \<Rightarrow> json option" where
  "get_prop (JObj kvs) k = map_of kvs k"
| "get_prop _ k = None"

fun assign :: "string \<Rightarrow> json \<Rightarrow> (string \<times> json) list \<Rightarrow> (string \<times> json) list" where
  "assign k v [] = [(k, v)]"
| "assign k v ((k', v') # kvs) =
     (if k' = k then (k, v) # kvs else (k', v') # assign k v kvs)"

text \<open>\<^verbatim>\<open>obj.k = v\<close>: the property is overwritten in place or appended.\<close>

fun set_prop :: "string \<Rightarrow> json \<Rightarrow> json \<Rightarrow> json" where
  "set_prop k v (JObj kvs) = JObj (assign k v kvs)"
| "set_prop k v j = j"

text \<open>JavaScript's falsy values, as \<^verbatim>\<open>!x\<close> tests them.\<close>

fun falsy :: "json option \<Rightarrow> bool" where
  "falsy None = True"
| "falsy (Some JNull) = True"
| "falsy (Some (JBool b)) = (\<not> b)"
| "falsy (Some (JNum q)) = (q = 0)"
| "falsy (Some (JStr s)) = (s = [])"
| "falsy (Some (JArr xs)) = False"
| "falsy (Some (JObj kvs)) = False"

section \<open>Strings\<close>

definition is_digit :: "char \<Rightarrow> bool" where
  "is_digit c = (c \<in> set ''0123456789'')"

definition is_hex :: "char \<Rightarrow> bool" where
  "is_hex c = (c \<in> set ''0123456789ABCDEFabcdef'')"

text \<open>\<^verbatim>\<open>s.split(c)\<close> for a one-character separator.\<close>

fun split_on :: "char \<Rightarrow> string \<Rightarrow> string list" where
  "split_on c [] = [[]]"
| "split_on c (x # xs) =
     (if x = c then [] # split_on c xs
      else (case split_on c xs of p # ps \<Rightarrow> (x # p) # ps | [] \<Rightarrow> [[x]]))"

definition digit_val :: "char \<Rightarrow> int" where
  "digit_val c = int (of_char c) - 48"

definition digits_value :: "string \<Rightarrow> int" where
  "digits_value s = foldl (\<lambda>a c. 10 * a + digit_val c) 0 s"

text \<open>
  \<^verbatim>\<open>Number(s)\<close> on a string, for the strings the time pattern lets through: a non-empty
  run of decimal digits. \<open>None\<close> marks a string outside this fragment (JavaScript gives
  \<^verbatim>\<open>NaN\<close> for most of them, and a number for a few forms such as the empty string or
  \<^verbatim>\<open>1e2\<close>); no such string reaches \<^verbatim>\<open>Number\<close> behind the schema check, see
  \<open>validateExtraction_returns\<close>.
\<close>

definition Number_js :: "string \<Rightarrow> int option" where
  "Number_js s = (if s \<noteq> [] \<and> list_all is_digit s then Some (digits_value s) else None)"

section \<open>The schema (schemas/timetable.js)\<close>

text \<open>
  zod is a library outside the repository. A schema is modelled by the issues it reports for
  a value (\<open>None\<close> for a missing property): the parse succeeds exactly when there are none.
  An issue is its path and its message; where the source gives no message of its own the
  issue code of zod stands for it.
\<close>

datatype seg = Key string | Idx nat

type_synonym zod_issue = "seg list \<times> string"

text \<open>\<^verbatim>\<open>/^\d{1,2}:\d{2}$/\<close>\<close>

definition time_pattern :: "string \<Rightarrow> bool" where
  "time_pattern s =
     (let h = takeWhile (\<lambda>c. c \<noteq> CHR '':'') s; r = dropWhile (\<lambda>c. c \<noteq> CHR '':'') s
      in (length h = 1 \<or> length h = 2) \<and> list_all is_digit h \<and>
         (case r of [] \<Rightarrow> False | c # m \<Rightarrow> length m = 2 \<and> list_all is_digit m))"

text \<open>\<^verbatim>\<open>/^#[0-9A-Fa-f]{6}$/\<close>\<close>

definition color_pattern :: "string \<Rightarrow> bool" where
  "color_pattern s =
     (case s of [] \<Rightarrow> False | c # r \<Rightarrow> c = CHR ''#'' \<and> length r = 6 \<and> list_all is_hex r)"

definition is_integer :: "rat \<Rightarrow> bool" where
  "is_integer q = (of_int \<lfloor>q\<rfloor> = q)"

fun timeSchema :: "json option \<Rightarrow> string list" where
  "timeSchema (Some (JStr s)) =
     (if time_pattern s then [] else [''Invalid time format. Expected HH:MM''])"
| "timeSchema _ = [''invalid_type'']"

definition days :: "string list" where
  "days = [''Monday'', ''Tuesday'', ''Wednesday'', ''Thursday'', ''Friday'', ''Saturday'',
           ''Sunday'']"

fun daySchema :: "json option \<Rightarrow> string list" where
  "daySchema (Some (JStr s)) = (if s \<in> set days then [] else [''invalid_enum_value''])"
| "daySchema _ = [''invalid_type'']"

definition subject_types :: "string list" where
  "subject_types = [''academic'', ''break'', ''administrative'', ''other'']"

text \<open>\<^verbatim>\<open>subjectTypeSchema.optional().default('academic')\<close>\<close>

fun subjectTypeSchema_opt :: "json option \<Rightarrow> string list" where
  "subjectTypeSchema_opt None = []"
| "subjectTypeSchema_opt (Some (JStr s)) =
     (if s \<in> set subject_types then [] else [''invalid_enum_value''])"
| "subjectTypeSchema_opt _ = [''invalid_type'']"

text \<open>\<^verbatim>\<open>z.string().optional()\<close>\<close>

fun string_opt :: "json option \<Rightarrow> string list" where
  "string_opt None = []"
| "string_opt (Some (JStr s)) = []"
| "string_opt _ = [''invalid_type'']"

text \<open>\<^verbatim>\<open>z.string().optional().nullable()\<close>\<close>

fun string_opt_null :: "json option \<Rightarrow> string list" where
  "string_opt_null None = []"
| "string_opt_null (Some JNull) = []"
| "string_opt_null (Some (JStr s)) = []"
| "string_opt_null _ = [''invalid_type'']"

text \<open>\<^verbatim>\<open>z.number().int().min(1).optional()\<close>: both checks run on a number.\<close>

fun durationSchema :: "json option \<Rightarrow> string list" where
  "durationSchema None = []"
| "durationSchema (Some (JNum q)) =
     (if is_integer q then [] else [''invalid_type'']) @ (if q < 1 then [''too_small''] else [])"
| "durationSchema _ = [''invalid_type'']"

text \<open>\<^verbatim>\<open>z.string().min(1, 'Subject name is required')\<close>\<close>

fun subjectSchema :: "json option \<Rightarrow> string list" where
  "subjectSchema (Some (JStr s)) =
     (if length s < 1 then [''Subject name is required''] else [])"
| "subjectSchema _ = [''invalid_type'']"

text \<open>\<^verbatim>\<open>z.string().regex(/^#[0-9A-Fa-f]{6}$/).optional().nullable()\<close>\<close>

fun colorSchema :: "json option \<Rightarrow> string list" where
  "colorSchema None = []"
| "colorSchema (Some JNull) = []"
| "colorSchema (Some (JStr s)) = (if color_pattern s then [] else [''invalid_string''])"
| "colorSchema _ = [''invalid_type'']"

text \<open>\<^verbatim>\<open>z.number().min(0).max(1)\<close> under \<^verbatim>\<open>optional().default(..)\<close> or
  \<^verbatim>\<open>default(..)\<close>: a missing value takes the default.\<close>

fun unit_interval_default :: "json option \<Rightarrow> string list" where
  "unit_interval_default None = []"
| "unit_interval_default (Some (JNum q)) =
     (if q < 0 then [''too_small''] else []) @ (if 1 < q then [''too_big''] else [])"
| "unit_interval_default _ = [''invalid_type'']"

definition at_key :: "string \<Rightarrow> string list \<Rightarrow> zod_issue list" where
  "at_key k msgs = map (\<lambda>m. ([Key k], m)) msgs"

definition under_seg :: "seg \<Rightarrow> zod_issue list \<Rightarrow> zod_issue list" where
  "under_seg s iss = map (\<lambda>(p, m). (s # p, m)) iss"

fun timeBlockSchema :: "json \<Rightarrow> zod_issue list" where
  "timeBlockSchema (JObj kvs) =
     (let b = JObj kvs in
        at_key ''id'' (string_opt (get_prop b ''id'')) @
        at_key ''day'' (daySchema (get_prop b ''day'')) @
        at_key ''start_time'' (timeSchema (get_prop b ''start_time'')) @
        at_key ''end_time'' (timeSchema (get_prop b ''end_time'')) @
        at_key ''duration_minutes'' (durationSchema (get_prop b ''duration_minutes'')) @
        at_key ''subject'' (subjectSchema (get_prop b ''subject'')) @
        at_key ''subject_type'' (subjectTypeSchema_opt (get_prop b ''subject_type'')) @
        at_key ''notes'' (string_opt_null (get_prop b ''notes'')) @
        at_key ''color_code'' (colorSchema (get_prop b ''color_code'')) @
        at_key ''room_location'' (string_opt_null (get_prop b ''room_location'')) @
        at_key ''confidence'' (unit_interval_default (get_prop b ''confidence'')))"
| "timeBlockSchema _ = [([], ''invalid_type'')]"

fun metadataSchema :: "json option \<Rightarrow> zod_issue list" where
  "metadataSchema (Some (JObj kvs)) =
     (let m = JObj kvs in
        at_key ''teacher_name'' (string_opt_null (get_prop m ''teacher_name'')) @
        at_key ''class_name'' (string_opt_null (get_prop m ''class_name'')) @
        at_key ''term'' (string_opt_null (get_prop m ''term'')) @
        at_key ''school_name'' (string_opt_null (get_prop m ''school_name'')) @
        at_key ''extraction_confidence'' (unit_interval_default (get_prop m ''extraction_confidence'')))"
| "metadataSchema _ = [([], ''invalid_type'')]"

fun blocksFrom :: "nat \<Rightarrow> json list \<Rightarrow> zod_issue list" where
  "blocksFrom i [] = []"
| "blocksFrom i (b # bs) = under_seg (Idx i) (timeBlockSchema b) @ blocksFrom (Suc i) bs"

text \<open>\<^verbatim>\<open>z.array(timeBlockSchema).min(1, 'At least one timeblock is required')\<close>\<close>

fun timeblocksSchema :: "json option \<Rightarrow> zod_issue list" where
  "timeblocksSchema (Some (JArr bs)) =
     (if length bs < 1 then [([], ''At least one timeblock is required'')] else []) @
     blocksFrom 0 bs"
| "timeblocksSchema _ = [([], ''invalid_type'')]"

fun timetableExtractionSchema :: "json option \<Rightarrow> zod_issue list" where
  "timetableExtractionSchema (Some (JObj kvs)) =
     (let d = JObj kvs in
        under_seg (Key ''metadata'') (metadataSchema (get_prop d ''metadata'')) @
        under_seg (Key ''timeblocks'') (timeblocksSchema (get_prop d ''timeblocks'')))"
| "timetableExtractionSchema _ = [([], ''invalid_type'')]"

text \<open>\<^verbatim>\<open>validateTimetable(data)\<close>: \<open>Inl\<close> is \<^verbatim>\<open>{ success: false, error }\<close>. The parsed copy
  that zod returns on success is never read by the callers, which go on with the raw data.\<close>

definition validateTimetable :: "json option \<Rightarrow> zod_issue list + unit" where
  "validateTimetable data =
     (case timetableExtractionSchema data of [] \<Rightarrow> Inr () | iss \<Rightarrow> Inl iss)"

section \<open>Business rules and enrichment (schemas/timetable.js)\<close>

record range_error =
  block :: json
  error :: string
  severity :: "string option"

text \<open>
  \<^verbatim>\<open>const [h, m] = block.k.split(':').map(Number)\<close>. \<open>None\<close> stands for a \<^verbatim>\<open>TypeError\<close>
  (the property is no string) or for a part outside the fragment of \<open>Number_js\<close>.
\<close>

definition hour_min :: "json \<Rightarrow> string \<Rightarrow> (int \<times> int) option" where
  "hour_min b k =
     (case get_prop b k of
        Some (JStr s) \<Rightarrow>
          (case map Number_js (split_on CHR '':'' s) of
             Some h # Some m # _ \<Rightarrow> Some (h, m)
           | _ \<Rightarrow> None)
      | _ \<Rightarrow> None)"

fun validateTimeRanges :: "json list \<Rightarrow> range_error list option" where
  "validateTimeRanges [] = Some []"
| "validateTimeRanges (b # bs) =
     (case (hour_min b ''start_time'', hour_min b ''end_time'') of
        (Some (startHour, startMin), Some (endHour, endMin)) \<Rightarrow>
          (let startMinutes = startHour * 60 + startMin;
               endMinutes = endHour * 60 + endMin
           in case validateTimeRanges bs of
                None \<Rightarrow> None
              | Some rest \<Rightarrow>
                  Some ((if endMinutes \<le> startMinutes
                         then [\<lparr>block = b, error = ''End time must be after start time'',
                                severity = None\<rparr>]
                         else []) @
                        (if startHour < 5 \<or> 23 < endHour
                         then [\<lparr>block = b, error = ''Time outside reasonable school hours'',
                                severity = Some ''warning''\<rparr>]
                         else []) @ rest))
      | _ \<Rightarrow> None)"

text \<open>The body of the \<^verbatim>\<open>map\<close> in \<^verbatim>\<open>enrichTimeBlocks\<close>: the duration is computed
  only when the block has none (or a falsy one); \<open>None\<close> as in \<open>hour_min\<close>.\<close>

definition enrichBlock :: "json \<Rightarrow> json option" where
  "enrichBlock b =
     (if falsy (get_prop b ''duration_minutes'') then
        (case (hour_min b ''start_time'', hour_min b ''end_time'') of
           (Some (startHour, startMin), Some (endHour, endMin)) \<Rightarrow>
             Some (set_prop ''duration_minutes''
                     (JNum (of_int ((endHour * 60 + endMin) - (startHour * 60 + startMin)))) b)
         | _ \<Rightarrow> None)
      else Some b)"

fun enrichTimeBlocks :: "json list \<Rightarrow> json list option" where
  "enrichTimeBlocks [] = Some []"
| "enrichTimeBlocks (b # bs) =
     (case enrichBlock b of
        None \<Rightarrow> None
      | Some b' \<Rightarrow> (case enrichTimeBlocks bs of None \<Rightarrow> None | Some bs' \<Rightarrow> Some (b' # bs')))"

section \<open>Validation in the orchestrator (services/fileProcessor.js)\<close>

text \<open>The three shapes of object that \<^verbatim>\<open>validateExtraction\<close> returns.\<close>

datatype validation =
    SchemaInvalid "zod_issue list"
  | RangesInvalid "(json option \<times> string) list" "range_error list"
  | Valid json "(json option \<times> string) list"

fun isValid :: "validation \<Rightarrow> bool" where
  "isValid (Valid enriched ws) = True"
| "isValid _ = False"

text \<open>The two filters, \<^verbatim>\<open>e.severity === 'warning'\<close> and
  \<^verbatim>\<open>!e.severity || e.severity === 'error'\<close>, and the shape
  \<^verbatim>\<open>{ block: e.block.subject, message: e.error }\<close> that errors and warnings are mapped to.\<close>

definition is_warning :: "range_error \<Rightarrow> bool" where
  "is_warning e = (severity e = Some ''warning'')"

definition is_hard :: "range_error \<Rightarrow> bool" where
  "is_hard e = (severity e = None \<or> severity e = Some [] \<or> severity e = Some ''error'')"

definition summary :: "range_error \<Rightarrow> json option \<times> string" where
  "summary e = (get_prop (block e) ''subject'', error e)"

text \<open>\<^verbatim>\<open>data.timeblocks\<close>, an array behind the schema check.\<close>

definition timeblocks_of :: "json option \<Rightarrow> json list option" where
  "timeblocks_of data =
     (case data of
        Some d \<Rightarrow> (case get_prop d ''timeblocks'' of Some (JArr bs) \<Rightarrow> Some bs | _ \<Rightarrow> None)
      | None \<Rightarrow> None)"

text \<open>\<^verbatim>\<open>{ metadata: data.metadata, timeblocks: enrichedTimeblocks }\<close>; a property
  whose value is \<^verbatim>\<open>undefined\<close> is left out.\<close>

definition enrichedData_of :: "json option \<Rightarrow> json list \<Rightarrow> json" where
  "enrichedData_of data enrichedTimeblocks =
     JObj ((case data of
              Some d \<Rightarrow> (case get_prop d ''metadata'' of Some m \<Rightarrow> [(''metadata'', m)] | None \<Rightarrow> [])
            | None \<Rightarrow> []) @
           [(''timeblocks'', JArr enrichedTimeblocks)])"

text \<open>\<open>None\<close> is an exception thrown inside (or an input outside the fragment modelled);
  \<open>validateExtraction_returns\<close> shows that it never happens.\<close>

definition validateExtraction :: "json option \<Rightarrow> validation option" where
  "validateExtraction data =
     (case validateTimetable data of
        Inl iss \<Rightarrow> Some (SchemaInvalid iss)
      | Inr _ \<Rightarrow>
          (case timeblocks_of data of
             None \<Rightarrow> None
           | Some bs \<Rightarrow>
               (case validateTimeRanges bs of
                  None \<Rightarrow> None
                | Some timeRangeErrors \<Rightarrow>
                    (let warnings = filter is_warning timeRangeErrors;
                         errors = filter is_hard timeRangeErrors
                     in if length errors > 0
                        then Some (RangesInvalid (map summary errors) warnings)
                        else (case enrichTimeBlocks bs of
                                None \<Rightarrow> None
                              | Some enrichedTimeblocks \<Rightarrow>
                                  Some (Valid (enrichedData_of data enrichedTimeblocks)
                                          (map summary warnings)))))))"

section \<open>JSON text\<close>

text \<open>
  \<^verbatim>\<open>JSON.parse\<close> is a builtin. It is modelled by a recursive-descent parser for JSON text
  without string escapes and without exponents in numbers; text outside this fragment is
  rejected here although JavaScript accepts it. A character stands for one code unit below
  256. The fuel bounds the chain of nested calls and starts at the length of the text plus
  one; a text that runs out of fuel is rejected. A repeated key keeps its first position
  and its last value.
\<close>

definition is_ws :: "char \<Rightarrow> bool" where
  "is_ws c = (c \<in> set [CHR '' '', CHR 0x09, CHR 0x0A, CHR 0x0D])"

definition skip_ws :: "string \<Rightarrow> string" where
  "skip_ws s = dropWhile is_ws s"

text \<open>The characters of a string literal up to the closing quote.\<close>

fun parse_chars :: "string \<Rightarrow> (string \<times> string) option" where
  "parse_chars [] = None"
| "parse_chars (c # r) =
     (if c = CHR 0x22 then Some ([], r)
      else if c = CHR 0x5C \<or> of_char c < (32::nat) then None
      else (case parse_chars r of None \<Rightarrow> None | Some (str, r') \<Rightarrow> Some (c # str, r')))"

definition parse_number :: "string \<Rightarrow> (rat \<times> string) option" where
  "parse_number s =
     (let neg = (case s of c # _ \<Rightarrow> c = CHR ''-'' | [] \<Rightarrow> False);
          s1 = (if neg then tl s else s);
          ip = takeWhile is_digit s1;
          s2 = dropWhile is_digit s1;
          fr = (case s2 of c # r \<Rightarrow> if c = CHR ''.'' then takeWhile is_digit r else [] | [] \<Rightarrow> []);
          s3 = (case s2 of c # r \<Rightarrow> if c = CHR ''.'' then dropWhile is_digit r else s2 | [] \<Rightarrow> []);
          dot = (case s2 of c # r \<Rightarrow> c = CHR ''.'' | [] \<Rightarrow> False);
          v = of_int (digits_value ip) + of_int (digits_value fr) / 10 ^ length fr
      in if ip = [] \<or> (1 < length ip \<and> hd ip = CHR ''0'') \<or> (dot \<and> fr = []) \<or>
            (case s3 of c # _ \<Rightarrow> c = CHR ''e'' \<or> c = CHR ''E'' | [] \<Rightarrow> False)
         then None
         else Some (if neg then - v else v, s3))"

definition startsWith :: "string \<Rightarrow> string \<Rightarrow> bool" where
  "startsWith s p = (take (length p) s = p)"

fun parse_value :: "nat \<Rightarrow> string \<Rightarrow> (json \<times> string) option"
  and parse_members :: "nat \<Rightarrow> (string \<times> json) list \<Rightarrow> string \<Rightarrow> (json \<times> string) option"
  and parse_elements :: "nat \<Rightarrow> json list \<Rightarrow> string \<Rightarrow> (json \<times> string) option" where
  "parse_value 0 s = None"
| "parse_value (Suc n) s =
     (case skip_ws s of
        [] \<Rightarrow> None
      | c # r \<Rightarrow>
          if c = CHR ''{'' then
            (case skip_ws r of
               [] \<Rightarrow> None
             | c' # r' \<Rightarrow> if c' = CHR ''}'' then Some (JObj [], r') else parse_members n [] r)
          else if c = CHR ''['' then
            (case skip_ws r of
               [] \<Rightarrow> None
             | c' # r' \<Rightarrow> if c' = CHR '']'' then Some (JArr [], r') else parse_elements n [] r)
          else if c = CHR 0x22 then
            (case parse_chars r of None \<Rightarrow> None | Some (str, r') \<Rightarrow> Some (JStr str, r'))
          else if startsWith (c # r) ''true'' then Some (JBool True, drop 4 (c # r))
          else if startsWith (c # r) ''false'' then Some (JBool False, drop 5 (c # r))
          else if startsWith (c # r) ''null'' then Some (JNull, drop 4 (c # r))
          else (case parse_number (c # r) of None \<Rightarrow> None | Some (q, r') \<Rightarrow> Some (JNum q, r')))"
| "parse_members 0 acc s = None"
| "parse_members (Suc n) acc s =
     (case skip_ws s of
        [] \<Rightarrow> None
      | c # r \<Rightarrow>
          if c \<noteq> CHR 0x22 then None
          else (case parse_chars r of
                  None \<Rightarrow> None
                | Some (k, r1) \<Rightarrow>
                    (case skip_ws r1 of
                       [] \<Rightarrow> None
                     | c1 # r2 \<Rightarrow>
                         if c1 \<noteq> CHR '':'' then None
                         else (case parse_value n r2 of
                                 None \<Rightarrow> None
                               | Some (v, r3) \<Rightarrow>
                                   (case skip_ws r3 of
                                      [] \<Rightarrow> None
                                    | c3 # r4 \<Rightarrow>
                                        if c3 = CHR '','' then parse_members n (assign k v acc) r4
                                        else if c3 = CHR ''}'' then Some (JObj (assign k v acc), r4)
                                        else None)))))"
| "parse_elements 0 acc s = None"
| "parse_elements (Suc n) acc s =
     (case parse_value n s of
        None \<Rightarrow> None
      | Some (v, r) \<Rightarrow>
          (case skip_ws r of
             [] \<Rightarrow> None
           | c # r' \<Rightarrow>
               if c = CHR '','' then parse_elements n (acc @ [v]) r'
               else if c = CHR '']'' then Some (JArr (acc @ [v]), r')
               else None))"

definition JSON_parse :: "string \<Rightarrow> json option" where
  "JSON_parse s =
     (case parse_value (Suc (length s)) s of
        None \<Rightarrow> None
      | Some (v, r) \<Rightarrow> if skip_ws r = [] then Some v else None)"

section \<open>Thrown values, configuration and the outside world\<close>

text \<open>
  A message is text, except where the source formats a number into it or the engine words
  it. \<^verbatim>\<open>details\<close> is a text, the stack copied from an \<^verbatim>\<open>Error\<close>, or absent.
\<close>

datatype message =
    Msg string
  | OcrConfidenceTooLow rat
  | FileTooLarge nat
  | SyntaxErrorMessage
  | TypeErrorMessage

datatype details = NoDetails | Text string | StackTrace

text \<open>What a \<^verbatim>\<open>throw\<close> carries: an \<^verbatim>\<open>Error\<close> has no \<^verbatim>\<open>code\<close>, the objects the
  services throw have one.\<close>

record thrown =
  code :: "string option"
  message :: message
  details :: details

definition Error :: "message \<Rightarrow> thrown" where
  "Error m = \<lparr>code = None, message = m, details = NoDetails\<rparr>"

type_synonym buffer = "char list"

record chat_response =
  content :: string
  total_tokens :: nat

text \<open>
  The configuration (config/index.js) and the libraries behind the services: sharp,
  Tesseract, pdf-parse and the chat endpoint, each a function of its input that returns or
  throws (\<open>Inl\<close>). Elapsed times and request identifiers are left out.
\<close>

record env =
  enableOCR :: bool
  enableLLMVision :: bool
  ocrConfidenceThreshold :: rat
  allowedFileTypes :: "string list"
  maxFileSize :: nat
  openaiApiKey :: bool
  sharp :: "buffer \<Rightarrow> buffer option"
  recognize :: "buffer \<Rightarrow> thrown + string \<times> rat"
  pdfParse :: "buffer \<Rightarrow> thrown + string"
  chat_image :: "buffer \<Rightarrow> string \<Rightarrow> thrown + chat_response"
  chat_text :: "string \<Rightarrow> thrown + chat_response"

text \<open>The calls a request makes, in order: entering a processor and every call to a
  library or to the model.\<close>

datatype event = ProcessImage | ProcessPDF | Sharp | OCR | PdfParse | VisionRequest | TextRequest

type_synonym 'a io = "event list \<times> (thrown + 'a)"

text \<open>\<^verbatim>\<open>s.trim()\<close>, for the white space below code unit 256.\<close>

definition is_space :: "char \<Rightarrow> bool" where
  "is_space c = (c \<in> set [CHR 0x09, CHR 0x0A, CHR 0x0B, CHR 0x0C, CHR 0x0D, CHR 0x20, CHR 0xA0])"

definition trim :: "string \<Rightarrow> string" where
  "trim s = rev (dropWhile is_space (rev (dropWhile is_space s)))"

section \<open>The model client (services/llmService.js)\<close>

record llm_meta =
  model :: string
  tokensUsed :: nat

record llm_result =
  data :: json
  metadata :: llm_meta

definition isConfigured :: "env \<Rightarrow> bool" where
  "isConfigured e = openaiApiKey e"

text \<open>The lines after the request: \<^verbatim>\<open>JSON.parse(response.choices[0].message.content)\<close>
  and the object returned; a \<^verbatim>\<open>SyntaxError\<close> leaves through the \<^verbatim>\<open>catch\<close> as it is.\<close>

definition parse_response :: "chat_response \<Rightarrow> thrown + llm_result" where
  "parse_response response =
     (case JSON_parse (content response) of
        None \<Rightarrow> Inl (Error SyntaxErrorMessage)
      | Some extractedData \<Rightarrow>
          Inr \<lparr>data = extractedData,
               metadata = \<lparr>model = ''gpt-4o'', tokensUsed = total_tokens response\<rparr>\<rparr>)"

definition extractWithVision :: "env \<Rightarrow> buffer \<Rightarrow> string \<Rightarrow> llm_result io" where
  "extractWithVision e imageBuffer mimeType =
     (if \<not> openaiApiKey e then ([], Inl (Error (Msg ''OpenAI API key not configured'')))
      else (case chat_image e imageBuffer mimeType of
              Inl err \<Rightarrow> ([VisionRequest], Inl err)
            | Inr response \<Rightarrow> ([VisionRequest], parse_response response)))"

definition extractFromText :: "env \<Rightarrow> string \<Rightarrow> llm_result io" where
  "extractFromText e text =
     (if \<not> openaiApiKey e then ([], Inl (Error (Msg ''OpenAI API key not configured'')))
      else (case chat_text e text of
              Inl err \<Rightarrow> ([TextRequest], Inl err)
            | Inr response \<Rightarrow> ([TextRequest], parse_response response)))"

subsection \<open>The second client (Anthropic)\<close>

text \<open>\<^verbatim>\<open>responseText.match(/\{[\s\S]*\}/)\<close>: from the first opening brace to the last
  closing brace after it.\<close>

definition jsonMatch :: "string \<Rightarrow> string option" where
  "jsonMatch responseText =
     (let r = dropWhile (\<lambda>c. c \<noteq> CHR ''{'') responseText;
          m = rev (dropWhile (\<lambda>c. c \<noteq> CHR ''}'') (rev r))
      in if m = [] then None else Some m)"

definition parse_response_claude :: "chat_response \<Rightarrow> thrown + llm_result" where
  "parse_response_claude response =
     (case jsonMatch (content response) of
        None \<Rightarrow> Inl (Error (Msg ''Failed to extract JSON from LLM response''))
      | Some m \<Rightarrow>
          (case JSON_parse m of
             None \<Rightarrow> Inl (Error SyntaxErrorMessage)
           | Some extractedData \<Rightarrow>
               Inr \<lparr>data = extractedData,
                    metadata = \<lparr>model = ''gpt-4o'', tokensUsed = total_tokens response\<rparr>\<rparr>))"

text \<open>The key of this client is a parameter: config/index.js defines none.\<close>

definition extractWithVision_claude ::
  "bool \<Rightarrow> env \<Rightarrow> buffer \<Rightarrow> string \<Rightarrow> llm_result io" where
  "extractWithVision_claude anthropic e imageBuffer mimeType =
     (if \<not> anthropic then ([], Inl (Error (Msg ''Anthropic API key not configured'')))
      else (case chat_image e imageBuffer mimeType of
              Inl err \<Rightarrow> ([VisionRequest], Inl err)
            | Inr response \<Rightarrow> ([VisionRequest], parse_response_claude response)))"

definition extractFromText_claude :: "bool \<Rightarrow> env \<Rightarrow> string \<Rightarrow> llm_result io" where
  "extractFromText_claude anthropic e text =
     (if \<not> anthropic then ([], Inl (Error (Msg ''Anthropic API key not configured'')))
      else (case chat_text e text of
              Inl err \<Rightarrow> ([TextRequest], Inl err)
            | Inr response \<Rightarrow> ([TextRequest], parse_response_claude response)))"

section \<open>The image processor (services/imageProcessor.js)\<close>

text \<open>The two shapes of object a processor returns: the parsed reply with the method that
  got it (and the OCR confidence on the OCR path), or the raw OCR text when no model is
  configured.\<close>

datatype processed =
    Parsed llm_result string "rat option"
  | RawText string rat

fun result_data :: "processed \<Rightarrow> json option" where
  "result_data (Parsed r m c) = Some (data r)"
| "result_data (RawText t c) = None"

fun result_metadata :: "processed \<Rightarrow> llm_meta option" where
  "result_metadata (Parsed r m c) = Some (metadata r)"
| "result_metadata (RawText t c) = None"

fun result_extractionMethod :: "processed \<Rightarrow> string option" where
  "result_extractionMethod (Parsed r m c) = Some m"
| "result_extractionMethod (RawText t c) = None"

text \<open>sharp failing is caught: the original buffer goes on.\<close>

definition preprocessImage :: "env \<Rightarrow> buffer \<Rightarrow> buffer" where
  "preprocessImage e imageBuffer =
     (case sharp e imageBuffer of Some processed \<Rightarrow> processed | None \<Rightarrow> imageBuffer)"

text \<open>The confidence of Tesseract is a percentage; the division is exact here.\<close>

definition performOCR :: "env \<Rightarrow> buffer \<Rightarrow> thrown + string \<times> rat" where
  "performOCR e imageBuffer =
     (case recognize e imageBuffer of
        Inl err \<Rightarrow> Inl err
      | Inr (text, confidence) \<Rightarrow> Inr (text, confidence / 100))"

definition extractWithOCR :: "env \<Rightarrow> buffer \<Rightarrow> processed io" where
  "extractWithOCR e imageBuffer =
     (case performOCR e imageBuffer of
        Inl err \<Rightarrow> ([OCR], Inl err)
      | Inr (text, confidence) \<Rightarrow>
          if confidence < ocrConfidenceThreshold e
          then ([OCR], Inl (Error (OcrConfidenceTooLow confidence)))
          else if text = [] \<or> length (trim text) < 50
          then ([OCR], Inl (Error (Msg
            ''Insufficient text extracted from image. Image may be unclear or contain no timetable data.'')))
          else if isConfigured e
          then (case extractFromText e text of
                  (evs, Inl err) \<Rightarrow> (OCR # evs, Inl err)
                | (evs, Inr result) \<Rightarrow>
                    (OCR # evs, Inr (Parsed result ''ocr + llm-text'' (Some confidence))))
          else ([OCR], Inr (RawText text confidence)))"

definition image_failed :: "thrown \<Rightarrow> thrown" where
  "image_failed err =
     \<lparr>code = Some ''IMAGE_PROCESSING_FAILED'', message = message err,
      details = Text
        ''Failed to extract timetable from image. The image may be unclear, corrupted, or in an unsupported format.''\<rparr>"

definition processImage :: "env \<Rightarrow> buffer \<Rightarrow> string \<Rightarrow> processed io" where
  "processImage e fileBuffer mimeType =
     (let processedImage = preprocessImage e fileBuffer in
      if enableLLMVision e \<and> isConfigured e then
        (case extractWithVision e processedImage mimeType of
           (evs, Inr result) \<Rightarrow>
             ([ProcessImage, Sharp] @ evs, Inr (Parsed result ''claude-vision'' None))
         | (evs, Inl visionError) \<Rightarrow>
             if enableOCR e then
               (case extractWithOCR e processedImage of
                  (evs', Inl err) \<Rightarrow> ([ProcessImage, Sharp] @ evs @ evs', Inl (image_failed err))
                | (evs', Inr r) \<Rightarrow> ([ProcessImage, Sharp] @ evs @ evs', Inr r))
             else ([ProcessImage, Sharp] @ evs, Inl (image_failed visionError)))
      else if enableOCR e then
        (case extractWithOCR e processedImage of
           (evs', Inl err) \<Rightarrow> ([ProcessImage, Sharp] @ evs', Inl (image_failed err))
         | (evs', Inr r) \<Rightarrow> ([ProcessImage, Sharp] @ evs', Inr r))
      else ([ProcessImage, Sharp], Inl (image_failed (Error (Msg
        ''No extraction method available. Enable LLM Vision or OCR in configuration.'')))))"

section \<open>The PDF processor (services/pdfProcessor.js)\<close>

definition pdf_failed :: "thrown \<Rightarrow> thrown" where
  "pdf_failed err =
     \<lparr>code = Some ''PDF_PROCESSING_FAILED'', message = message err,
      details = Text
        ''Failed to extract text from PDF. The file may be corrupted, password-protected, or a scanned image.''\<rparr>"

definition processPDF :: "env \<Rightarrow> buffer \<Rightarrow> processed io" where
  "processPDF e fileBuffer =
     (case pdfParse e fileBuffer of
        Inl err \<Rightarrow> ([ProcessPDF, PdfParse], Inl (pdf_failed err))
      | Inr text \<Rightarrow>
          if text \<noteq> [] \<and> 50 < length (trim text) then
            (case extractFromText e text of
               (evs, Inl err) \<Rightarrow> ([ProcessPDF, PdfParse] @ evs, Inl (pdf_failed err))
             | (evs, Inr result) \<Rightarrow>
                 ([ProcessPDF, PdfParse] @ evs, Inr (Parsed result ''pdf-parse + llm-text'' None)))
          else ([ProcessPDF, PdfParse], Inl (pdf_failed (Error (Msg
            ''PDF appears to be a scanned image. Please convert to PNG/JPEG and upload again, or the PDF may be empty.'')))))"

section \<open>The orchestrator (services/fileProcessor.js)\<close>

record file_meta =
  llm :: "llm_meta option"
  extractionMethod :: "string option"
  filename :: string
  fileType :: string
  validationWarnings :: "(json option \<times> string) list"

text \<open>The two objects \<^verbatim>\<open>processFile\<close> returns: \<^verbatim>\<open>{ success: false, error: { code:
  'VALIDATION_FAILED', .. details: validation.errors }, partialData, extractionMethod }\<close>
  and \<^verbatim>\<open>{ success: true, data, metadata }\<close>.\<close>

datatype file_result =
    ValidationFailed validation "json option" "string option"
  | Extracted json file_meta

fun file_success :: "file_result \<Rightarrow> bool" where
  "file_success (Extracted d m) = True"
| "file_success (ValidationFailed v p x) = False"

fun file_data :: "file_result \<Rightarrow> json option" where
  "file_data (Extracted d m) = Some d"
| "file_data (ValidationFailed v p x) = None"

fun file_metadata :: "file_result \<Rightarrow> file_meta option" where
  "file_metadata (Extracted d m) = Some m"
| "file_metadata (ValidationFailed v p x) = None"

text \<open>The \<^verbatim>\<open>catch\<close> of \<^verbatim>\<open>processFile\<close>: a value with a code is thrown on, anything else is
  wrapped.\<close>

definition processing_failed :: "thrown \<Rightarrow> thrown" where
  "processing_failed err =
     (if code err \<noteq> None \<and> code err \<noteq> Some [] then err
      else \<lparr>code = Some ''PROCESSING_FAILED'',
            message = (if message err = Msg [] then Msg ''An unexpected error occurred during processing''
                       else message err),
            details = StackTrace\<rparr>)"

text \<open>The routing at the head of \<^verbatim>\<open>processFile\<close>: the processor is chosen by the MIME
  type, and any other type is thrown as unsupported.\<close>

definition route_file :: "env \<Rightarrow> buffer \<Rightarrow> string \<Rightarrow> processed io" where
  "route_file e fileBuffer mimetype =
     (if startsWith mimetype ''image/'' then processImage e fileBuffer mimetype
      else if mimetype = ''application/pdf'' then processPDF e fileBuffer
      else ([], Inl \<lparr>code = Some ''UNSUPPORTED_FILE_TYPE'',
                      message = Msg (''File type '' @ mimetype @ '' is not supported''),
                      details = Text ''Supported types: image/png, image/jpeg, application/pdf''\<rparr>))"

definition processFile :: "env \<Rightarrow> buffer \<Rightarrow> string \<Rightarrow> string \<Rightarrow> file_result io" where
  "processFile e fileBuffer mimetype name =
     (case route_file e fileBuffer mimetype of
        (evs, Inl err) \<Rightarrow> (evs, Inl (processing_failed err))
      | (evs, Inr result) \<Rightarrow>
          (case validateExtraction (result_data result) of
             None \<Rightarrow> (evs, Inl (processing_failed (Error TypeErrorMessage)))
           | Some (Valid enrichedData warnings) \<Rightarrow>
               (evs, Inr (Extracted enrichedData
                  \<lparr>llm = result_metadata result, extractionMethod = result_extractionMethod result,
                   filename = name, fileType = mimetype, validationWarnings = warnings\<rparr>))
           | Some validation \<Rightarrow>
               (evs, Inr (ValidationFailed validation (result_data result)
                            (result_extractionMethod result)))))"

definition isFileTypeSupported :: "string \<Rightarrow> bool" where
  "isFileTypeSupported mimetype =
     (mimetype \<in> set [''image/png'', ''image/jpeg'', ''application/pdf''])"

section \<open>The controller and the upload middleware\<close>

record upload =
  buffer :: buffer
  mimetype :: string
  originalname :: string

text \<open>A response: the status and the JSON body, \<^verbatim>\<open>{ success: true, data, metadata, .. }\<close>
  or \<^verbatim>\<open>{ success: false, error: { code, message, details } }\<close>. A value that is
  \<^verbatim>\<open>undefined\<close> is \<open>None\<close>.\<close>

datatype body =
    SuccessBody "json option" "file_meta option"
  | ErrorBody string message details

record response =
  status :: nat
  body :: body

fun includes_str :: "string \<Rightarrow> string \<Rightarrow> bool" where
  "includes_str [] t = (t = [])"
| "includes_str (x # xs) t = (startsWith (x # xs) t \<or> includes_str xs t)"

definition statusCode :: "string option \<Rightarrow> nat" where
  "statusCode c =
     (let s = 500;
          s = (if c = Some ''UNSUPPORTED_FILE_TYPE'' then 415 else s);
          s = (if c = Some ''VALIDATION_FAILED'' then 422 else s);
          s = (if c = Some ''FILE_TOO_LARGE'' then 413 else s);
          s = (if (case c of Some c' \<Rightarrow> includes_str c' ''INVALID'' | None \<Rightarrow> False) then 400 else s)
      in s)"

definition extractTimetable :: "env \<Rightarrow> upload option \<Rightarrow> event list \<times> response" where
  "extractTimetable e file =
     (case file of
        None \<Rightarrow>
          ([], \<lparr>status = 400,
                body = ErrorBody ''NO_FILE_PROVIDED''
                  (Msg ''No file was uploaded. Please provide a file in the request.'') NoDetails\<rparr>)
      | Some f \<Rightarrow>
          (case processFile e (buffer f) (mimetype f) (originalname f) of
             (evs, Inr result) \<Rightarrow>
               (evs, \<lparr>status = 200, body = SuccessBody (file_data result) (file_metadata result)\<rparr>)
           | (evs, Inl err) \<Rightarrow>
               (evs, \<lparr>status = statusCode (code err),
                      body = ErrorBody
                        (case code err of None \<Rightarrow> ''INTERNAL_ERROR''
                         | Some c \<Rightarrow> if c = [] then ''INTERNAL_ERROR'' else c)
                        (if message err = Msg [] then Msg ''An unexpected error occurred''
                         else message err)
                        (details err)\<rparr>)))"

fun join :: "string \<Rightarrow> string list \<Rightarrow> string" where
  "join sep [] = []"
| "join sep [x] = x"
| "join sep (x # y # ys) = x @ sep @ join sep (y # ys)"

text \<open>\<^verbatim>\<open>fileFilter\<close>: \<open>Some\<close> is the error handed to the callback.\<close>

definition fileFilter :: "env \<Rightarrow> upload \<Rightarrow> thrown option" where
  "fileFilter e file =
     (if mimetype file \<notin> set (allowedFileTypes e)
      then Some \<lparr>code = Some ''UNSUPPORTED_FILE_TYPE'',
                 message = Msg (''File type '' @ mimetype file @
                   '' is not supported. Allowed types: '' @ join '', '' (allowedFileTypes e)),
                 details = NoDetails\<rparr>
      else None)"

datatype upload_error =
    LIMIT_FILE_SIZE
  | LIMIT_UNEXPECTED_FILE
  | OtherMulterError string
  | FilterError thrown

text \<open>\<^verbatim>\<open>handleMulterError\<close>, followed by the global \<^verbatim>\<open>errorHandler\<close> for what it passes on.\<close>

fun handleMulterError :: "env \<Rightarrow> upload_error \<Rightarrow> response" where
  "handleMulterError e LIMIT_FILE_SIZE =
     \<lparr>status = 413, body = ErrorBody ''FILE_TOO_LARGE'' (FileTooLarge (maxFileSize e)) NoDetails\<rparr>"
| "handleMulterError e LIMIT_UNEXPECTED_FILE =
     \<lparr>status = 400,
      body = ErrorBody ''INVALID_REQUEST'' (Msg ''Unexpected file field. Use field name \"file\"'')
               NoDetails\<rparr>"
| "handleMulterError e (OtherMulterError m) =
     \<lparr>status = 400, body = ErrorBody ''UPLOAD_ERROR'' (Msg m) NoDetails\<rparr>"
| "handleMulterError e (FilterError err) =
     (if code err = Some ''UNSUPPORTED_FILE_TYPE''
      then \<lparr>status = 415, body = ErrorBody ''UNSUPPORTED_FILE_TYPE'' (message err) NoDetails\<rparr>
      else \<lparr>status = 500,
            body = ErrorBody
              (case code err of None \<Rightarrow> ''INTERNAL_SERVER_ERROR''
               | Some c \<Rightarrow> if c = [] then ''INTERNAL_SERVER_ERROR'' else c)
              (if message err = Msg [] then Msg ''An unexpected error occurred'' else message err)
              NoDetails\<rparr>)"

text \<open>
  The route \<^verbatim>\<open>router.post('/extract', upload.single('file'), handleMulterError,
  extractTimetable)\<close>. multer is a library: it asks \<^verbatim>\<open>fileFilter\<close> before it reads the
  file, stops a file longer than \<^verbatim>\<open>limits.fileSize\<close>, and hands either error to the next
  error handler; otherwise the controller runs.
\<close>

definition post_extract :: "env \<Rightarrow> upload option \<Rightarrow> event list \<times> response" where
  "post_extract e req =
     (case req of
        None \<Rightarrow> extractTimetable e None
      | Some file \<Rightarrow>
          (case fileFilter e file of
             Some err \<Rightarrow> ([], handleMulterError e (FilterError err))
           | None \<Rightarrow>
               if maxFileSize e < length (buffer file)
               then ([], handleMulterError e LIMIT_FILE_SIZE)
               else extractTimetable e (Some file)))"

section \<open>A sample deployment\<close>

text \<open>
  The default configuration of config/index.js with the key set, and libraries that answer
  with fixed values: the document holds the given text, Tesseract reports the given
  confidence (in percent), the model answers with the given reply, and the vision request
  fails when the first argument is false.
\<close>

definition sample_env :: "bool \<Rightarrow> rat \<Rightarrow> string \<Rightarrow> string \<Rightarrow> env" where
  "sample_env vision_up ocr_percent doc_text reply =
     \<lparr>enableOCR = True, enableLLMVision = True, ocrConfidenceThreshold = 6 / 10,
      allowedFileTypes = [''image/png'', ''image/jpeg'', ''application/pdf''],
      maxFileSize = 10485760, openaiApiKey = True,
      sharp = (\<lambda>b. Some b),
      recognize = (\<lambda>b. Inr (doc_text, ocr_percent)),
      pdfParse = (\<lambda>b. Inr doc_text),
      chat_image = (\<lambda>b m. if vision_up then Inr \<lparr>content = reply, total_tokens = 900\<rparr>
                            else Inl (Error (Msg ''Connection error.''))),
      chat_text = (\<lambda>t. Inr \<lparr>content = reply, total_tokens = 900\<rparr>)\<rparr>"

section \<open>Lemmas: time strings\<close>

lemma split_on_no_sep: "c \<notin> set s \<Longrightarrow> split_on c s = [s]"
  by (induction s) auto

lemma split_on_append: "c \<notin> set h \<Longrightarrow> split_on c (h @ c # r) = h # split_on c r"
  by (induction h) auto

lemma digit_not_colon: "is_digit c \<Longrightarrow> c \<noteq> CHR '':''"
  by (auto simp: is_digit_def)

lemma digits_no_colon: "list_all is_digit s \<Longrightarrow> CHR '':'' \<notin> set s"
  by (induction s) (auto dest: digit_not_colon)

lemma time_pattern_split:
  assumes "time_pattern s"
  obtains h m where "split_on CHR '':'' s = [h, m]" "h \<noteq> []" "m \<noteq> []"
    "list_all is_digit h" "list_all is_digit m"
proof -
  let ?h = "takeWhile (\<lambda>c. c \<noteq> CHR '':'') s"
  let ?r = "dropWhile (\<lambda>c. c \<noteq> CHR '':'') s"
  from assms obtain c m where r: "?r = c # m" and m: "length m = 2" "list_all is_digit m"
    and h: "length ?h = 1 \<or> length ?h = 2" "list_all is_digit ?h"
    by (auto simp: time_pattern_def Let_def split: list.splits)
  have c: "c = CHR '':''" using r hd_dropWhile[of "\<lambda>c. c \<noteq> CHR '':''" s] by (metis list.sel(1) list.distinct(1))
  have s: "s = ?h @ CHR '':'' # m" using r c takeWhile_dropWhile_id[of "\<lambda>c. c \<noteq> CHR '':''" s] by simp
  have "split_on CHR '':'' s = [?h, m]"
    by (subst s, subst split_on_append) (use h m in \<open>auto simp: digits_no_colon split_on_no_sep simp del: takeWhile_append1\<close>)
  moreover have "?h \<noteq> []" "m \<noteq> []" using h m by auto
  ultimately show thesis using that h m by blast
qed

lemma time_pattern_hour_min:
  assumes "get_prop b k = Some (JStr s)" "time_pattern s"
  shows "\<exists>h m. hour_min b k = Some (h, m)"
proof -
  from assms(2) obtain h m where "split_on CHR '':'' s = [h, m]" "h \<noteq> []" "m \<noteq> []"
    "list_all is_digit h" "list_all is_digit m" by (rule time_pattern_split)
  then show ?thesis using assms(1) by (simp add: hour_min_def Number_js_def)
qed

section \<open>Lemmas: the schema\<close>

lemma at_key_Nil [simp]: "at_key k msgs = [] \<longleftrightarrow> msgs = []"
  by (simp add: at_key_def)

lemma under_seg_Nil [simp]: "under_seg s iss = [] \<longleftrightarrow> iss = []"
  by (simp add: under_seg_def)

lemma timeSchema_ok: "timeSchema v = [] \<Longrightarrow> \<exists>s. v = Some (JStr s) \<and> time_pattern s"
  by (cases v rule: timeSchema.cases) (auto split: if_splits)

lemma durationSchema_ok:
  "durationSchema v = [] \<Longrightarrow> v = None \<or> (\<exists>q. v = Some (JNum q) \<and> is_integer q \<and> 1 \<le> q)"
  by (cases v rule: durationSchema.cases) (auto split: if_splits)

lemma subjectSchema_ok: "subjectSchema v = [] \<Longrightarrow> \<exists>s. v = Some (JStr s) \<and> s \<noteq> []"
  by (cases v rule: subjectSchema.cases) (auto split: if_splits)

lemma timeBlockSchema_ok:
  assumes "timeBlockSchema b = []"
  shows "\<exists>kvs. b = JObj kvs"
    and "\<exists>h m. hour_min b ''start_time'' = Some (h, m)"
    and "\<exists>h m. hour_min b ''end_time'' = Some (h, m)"
    and "get_prop b ''duration_minutes'' = None \<or>
         (\<exists>q. get_prop b ''duration_minutes'' = Some (JNum q) \<and> is_integer q \<and> 1 \<le> q)"
proof -
  from assms obtain kvs where b: "b = JObj kvs"
    by (cases b) auto
  show "\<exists>kvs. b = JObj kvs" using b by blast
  from assms b have st: "timeSchema (get_prop b ''start_time'') = []"
    and en: "timeSchema (get_prop b ''end_time'') = []"
    and du: "durationSchema (get_prop b ''duration_minutes'') = []"
    by (simp_all add: Let_def)
  from timeSchema_ok[OF st] show "\<exists>h m. hour_min b ''start_time'' = Some (h, m)"
    by (auto intro: time_pattern_hour_min)
  from timeSchema_ok[OF en] show "\<exists>h m. hour_min b ''end_time'' = Some (h, m)"
    by (auto intro: time_pattern_hour_min)
  from durationSchema_ok[OF du] show "get_prop b ''duration_minutes'' = None \<or>
         (\<exists>q. get_prop b ''duration_minutes'' = Some (JNum q) \<and> is_integer q \<and> 1 \<le> q)" .
qed

lemma blocksFrom_Nil: "blocksFrom i bs = [] \<longleftrightarrow> (\<forall>b\<in>set bs. timeBlockSchema b = [])"
  by (induction bs arbitrary: i) auto

lemma validateTimetable_ok:
  assumes "validateTimetable cand = Inr u"
  shows "\<exists>kvs bs. cand = Some (JObj kvs) \<and> timeblocks_of cand = Some bs \<and> bs \<noteq> [] \<and>
           (\<forall>b\<in>set bs. timeBlockSchema b = [])"
proof -
  from assms have z: "timetableExtractionSchema cand = []"
    by (simp add: validateTimetable_def split: list.splits)
  then obtain kvs where d: "cand = Some (JObj kvs)"
    by (cases cand rule: timetableExtractionSchema.cases) auto
  from z d have t: "timeblocksSchema (get_prop (JObj kvs) ''timeblocks'') = []"
    by (simp add: Let_def)
  then obtain bs where bs: "get_prop (JObj kvs) ''timeblocks'' = Some (JArr bs)"
    by (cases "get_prop (JObj kvs) ''timeblocks''" rule: timeblocksSchema.cases) auto
  from t bs have "bs \<noteq> []" "blocksFrom 0 bs = []"
    by (auto split: if_splits)
  then show ?thesis using d bs
    by (auto simp: timeblocks_of_def blocksFrom_Nil)
qed

lemma validateTimeRanges_returns:
  "\<forall>b\<in>set bs. timeBlockSchema b = [] \<Longrightarrow> \<exists>es. validateTimeRanges bs = Some es"
proof (induction bs)
  case Nil
  then show ?case by simp
next
  case (Cons b bs)
  then obtain es where "validateTimeRanges bs = Some es" by auto
  moreover from Cons.prems have "timeBlockSchema b = []" by simp
  from timeBlockSchema_ok(2,3)[OF this] obtain sh sm eh em where
    "hour_min b ''start_time'' = Some (sh, sm)" "hour_min b ''end_time'' = Some (eh, em)" by auto
  ultimately show ?case by (simp add: Let_def)
qed

section \<open>Lemmas: business rules and enrichment\<close>

lemma map_of_assign [simp]: "map_of (assign k v kvs) k = Some v"
  by (induction kvs) auto

lemma map_of_assign_other [simp]: "k' \<noteq> k \<Longrightarrow> map_of (assign k v kvs) k' = map_of kvs k'"
  by (induction kvs) auto

lemma get_set_prop: "get_prop (set_prop k v (JObj kvs)) k = Some v"
  by simp

lemma is_hard_simps [simp]:
  "is_hard \<lparr>block = b, error = e, severity = None\<rparr>"
  "\<not> is_hard \<lparr>block = b, error = e, severity = Some ''warning''\<rparr>"
  by (simp_all add: is_hard_def)

lemma is_warning_simps [simp]:
  "\<not> is_warning \<lparr>block = b, error = e, severity = None\<rparr>"
  "is_warning \<lparr>block = b, error = e, severity = Some ''warning''\<rparr>"
  by (simp_all add: is_warning_def)

lemma ranges_end_before_start:
  assumes "validateTimeRanges bs = Some es" "b \<in> set bs"
    "hour_min b ''start_time'' = Some (sh, sm)" "hour_min b ''end_time'' = Some (eh, em)"
    "eh * 60 + em \<le> sh * 60 + sm"
  shows "\<lparr>block = b, error = ''End time must be after start time'', severity = None\<rparr> \<in> set es"
  using assms
proof (induction bs arbitrary: es)
  case Nil
  then show ?case by simp
next
  case (Cons a bs)
  from Cons.prems(1) obtain rest where rest: "validateTimeRanges bs = Some rest"
    by (auto simp: Let_def split: option.splits prod.splits)
  show ?case
  proof (cases "b = a")
    case True
    with Cons.prems rest show ?thesis by (auto simp: Let_def)
  next
    case False
    with Cons.prems have "b \<in> set bs" by simp
    from Cons.IH[OF rest this Cons.prems(3,4,5)] Cons.prems(1) rest
    show ?thesis by (auto simp: Let_def split: option.splits prod.splits)
  qed
qed

lemma ranges_outside_hours:
  assumes "validateTimeRanges bs = Some es" "b \<in> set bs"
    "hour_min b ''start_time'' = Some (sh, sm)" "hour_min b ''end_time'' = Some (eh, em)"
    "sh < 5 \<or> 23 < eh"
  shows "\<lparr>block = b, error = ''Time outside reasonable school hours'',
           severity = Some ''warning''\<rparr> \<in> set es"
  using assms
proof (induction bs arbitrary: es)
  case Nil
  then show ?case by simp
next
  case (Cons a bs)
  from Cons.prems(1) obtain rest where rest: "validateTimeRanges bs = Some rest"
    by (auto simp: Let_def split: option.splits prod.splits)
  show ?case
  proof (cases "b = a")
    case True
    with Cons.prems rest show ?thesis by (auto simp: Let_def)
  next
    case False
    with Cons.prems have "b \<in> set bs" by simp
    from Cons.IH[OF rest this Cons.prems(3,4,5)] Cons.prems(1) rest
    show ?thesis by (auto simp: Let_def split: option.splits prod.splits)
  qed
qed

lemma ranges_no_hard:
  assumes "validateTimeRanges bs = Some es" "filter is_hard es = []" "b \<in> set bs"
  shows "\<exists>sh sm eh em. hour_min b ''start_time'' = Some (sh, sm) \<and>
           hour_min b ''end_time'' = Some (eh, em) \<and> sh * 60 + sm < eh * 60 + em"
  using assms
proof (induction bs arbitrary: es)
  case Nil
  then show ?case by simp
next
  case (Cons a bs)
  from Cons.prems(1) obtain rest sh sm eh em where rest: "validateTimeRanges bs = Some rest"
    and a: "hour_min a ''start_time'' = Some (sh, sm)" "hour_min a ''end_time'' = Some (eh, em)"
    by (auto simp: Let_def split: option.splits prod.splits)
  from Cons.prems(1,2) rest a have hard: "filter is_hard rest = []"
    and lt: "sh * 60 + sm < eh * 60 + em"
    by (auto simp: Let_def split: if_splits)
  show ?case
  proof (cases "b = a")
    case True
    with a lt show ?thesis by auto
  next
    case False
    with Cons.prems have "b \<in> set bs" by simp
    from Cons.IH[OF rest hard this] show ?thesis .
  qed
qed

lemma ranges_all_late:
  assumes "validateTimeRanges bs = Some es"
    "\<forall>b\<in>set bs. \<forall>sh sm eh em. hour_min b ''start_time'' = Some (sh, sm) \<longrightarrow>
        hour_min b ''end_time'' = Some (eh, em) \<longrightarrow> sh * 60 + sm < eh * 60 + em"
  shows "filter is_hard es = []"
  using assms
proof (induction bs arbitrary: es)
  case Nil
  then show ?case by simp
next
  case (Cons a bs)
  from Cons.prems(1) obtain rest sh sm eh em where rest: "validateTimeRanges bs = Some rest"
    and a: "hour_min a ''start_time'' = Some (sh, sm)" "hour_min a ''end_time'' = Some (eh, em)"
    by (auto simp: Let_def split: option.splits prod.splits)
  from Cons.prems(2) a have lt: "sh * 60 + sm < eh * 60 + em" by auto
  from Cons.IH[OF rest] Cons.prems(2) have "filter is_hard rest = []" by auto
  with Cons.prems(1) rest a lt show ?case
    by (auto simp: Let_def split: if_splits)
qed

lemma enrichBlock_missing:
  assumes "get_prop b ''duration_minutes'' = None" "b = JObj kvs"
    "hour_min b ''start_time'' = Some (sh, sm)" "hour_min b ''end_time'' = Some (eh, em)"
  shows "\<exists>b'. enrichBlock b = Some b' \<and>
           get_prop b' ''duration_minutes'' = Some (JNum (of_int ((eh * 60 + em) - (sh * 60 + sm))))"
  using assms by (simp add: enrichBlock_def)

lemma enrichBlock_given:
  assumes "get_prop b ''duration_minutes'' = Some (JNum q)" "1 \<le> q"
  shows "enrichBlock b = Some b"
  using assms by (simp add: enrichBlock_def)

lemma enrichTimeBlocks_all2:
  "enrichTimeBlocks bs = Some bs' \<Longrightarrow> list_all2 (\<lambda>b b'. enrichBlock b = Some b') bs bs'"
  by (induction bs arbitrary: bs') (auto split: option.splits)

lemma enrichTimeBlocks_returns:
  "\<forall>b\<in>set bs. \<exists>b'. enrichBlock b = Some b' \<Longrightarrow> \<exists>bs'. enrichTimeBlocks bs = Some bs'"
  by (induction bs) auto

lemma enrichBlock_returns:
  assumes "timeBlockSchema b = []"
  shows "\<exists>b'. enrichBlock b = Some b'"
proof -
  from timeBlockSchema_ok[OF assms] obtain kvs sh sm eh em where
    "b = JObj kvs" "hour_min b ''start_time'' = Some (sh, sm)"
    "hour_min b ''end_time'' = Some (eh, em)" by auto
  then show ?thesis by (simp add: enrichBlock_def)
qed

lemma validateExtraction_returns: "\<exists>v. validateExtraction cand = Some v"
proof (cases "validateTimetable cand")
  case (Inl iss)
  then show ?thesis by (simp add: validateExtraction_def)
next
  case (Inr u)
  from validateTimetable_ok[OF this] obtain bs where bs: "timeblocks_of cand = Some bs"
    and ok: "\<forall>b\<in>set bs. timeBlockSchema b = []" by auto
  from validateTimeRanges_returns[OF ok] obtain es where es: "validateTimeRanges bs = Some es" ..
  from ok have "\<forall>b\<in>set bs. \<exists>b'. enrichBlock b = Some b'" by (auto intro: enrichBlock_returns)
  from enrichTimeBlocks_returns[OF this] obtain bs' where "enrichTimeBlocks bs = Some bs'" ..
  with Inr bs es show ?thesis by (simp add: validateExtraction_def Let_def)
qed

text \<open>What a valid outcome means.\<close>

lemma enrichedData_timeblocks [simp]:
  "get_prop (enrichedData_of cand bs') ''timeblocks'' = Some (JArr bs')"
  by (simp add: enrichedData_of_def split: option.splits)

lemma validateExtraction_Valid:
  assumes "validateExtraction cand = Some (Valid enriched ws)"
  shows "\<exists>bs es bs'. validateTimetable cand = Inr () \<and> timeblocks_of cand = Some bs \<and>
           validateTimeRanges bs = Some es \<and> filter is_hard es = [] \<and>
           enrichTimeBlocks bs = Some bs' \<and> ws = map summary (filter is_warning es) \<and>
           get_prop enriched ''timeblocks'' = Some (JArr bs')"
  using assms
  by (auto simp: validateExtraction_def Let_def split: sum.splits option.splits if_splits)

lemma validateExtraction_no_hard:
  assumes "validateTimetable cand = Inr ()" "timeblocks_of cand = Some bs"
    "validateTimeRanges bs = Some es" "filter is_hard es = []"
  shows "\<exists>enriched. validateExtraction cand = Some (Valid enriched (map summary (filter is_warning es)))"
proof -
  from validateExtraction_returns obtain v where v: "validateExtraction cand = Some v" ..
  with assms show ?thesis
    by (auto simp: validateExtraction_def Let_def split: option.splits)
qed

lemma validateExtraction_hard:
  assumes "validateTimetable cand = Inr ()" "timeblocks_of cand = Some bs"
    "validateTimeRanges bs = Some es" "filter is_hard es \<noteq> []"
  shows "validateExtraction cand =
           Some (RangesInvalid (map summary (filter is_hard es)) (filter is_warning es))"
  using assms by (simp add: validateExtraction_def Let_def)

lemma validateTimetable_Inl:
  "timetableExtractionSchema cand \<noteq> [] \<Longrightarrow>
   validateTimetable cand = Inl (timetableExtractionSchema cand)"
  by (simp add: validateTimetable_def split: list.splits)

lemma is_integer_of_int: "is_integer (of_int k)"
  by (simp add: is_integer_def)

text \<open>What enrichment does to one block behind the two checks.\<close>

lemma enrichBlock_valid_missing:
  assumes "timeBlockSchema b = []" "get_prop b ''duration_minutes'' = None"
    and "hour_min b ''start_time'' = Some (sh, sm)" "hour_min b ''end_time'' = Some (eh, em)"
    and "enrichBlock b = Some b'"
  shows "b' = set_prop ''duration_minutes''
                (JNum (of_int ((eh * 60 + em) - (sh * 60 + sm)))) b"
    and "get_prop b' ''duration_minutes'' =
           Some (JNum (of_int ((eh * 60 + em) - (sh * 60 + sm))))"
proof -
  from timeBlockSchema_ok(1)[OF assms(1)] obtain kvs where b: "b = JObj kvs" ..
  from assms b show "b' = set_prop ''duration_minutes''
                (JNum (of_int ((eh * 60 + em) - (sh * 60 + sm)))) b"
    by (auto simp: enrichBlock_def)
  with b show "get_prop b' ''duration_minutes'' =
           Some (JNum (of_int ((eh * 60 + em) - (sh * 60 + sm))))"
    by simp
qed

lemma enrichBlock_valid_given:
  assumes "timeBlockSchema b = []" "get_prop b ''duration_minutes'' = Some d"
    and "enrichBlock b = Some b'"
  shows "b' = b"
proof -
  from timeBlockSchema_ok(4)[OF assms(1)] assms(2)
  obtain q where q: "get_prop b ''duration_minutes'' = Some (JNum q)" "1 \<le> q" by auto
  from enrichBlock_given[OF q] assms(3) show ?thesis by simp
qed

lemma valid_pairs:
  assumes "validateExtraction cand = Some (Valid enriched ws)"
  shows "\<exists>bs bs'. timeblocks_of cand = Some bs \<and>
           get_prop enriched ''timeblocks'' = Some (JArr bs') \<and> bs \<noteq> [] \<and>
           list_all2 (\<lambda>b b'. timeBlockSchema b = [] \<and> enrichBlock b = Some b' \<and>
             (\<exists>sh sm eh em. hour_min b ''start_time'' = Some (sh, sm) \<and>
                hour_min b ''end_time'' = Some (eh, em) \<and> sh * 60 + sm < eh * 60 + em)) bs bs'"
proof -
  from validateExtraction_Valid[OF assms] obtain bs es bs' where
    v: "validateTimetable cand = Inr ()" and bs: "timeblocks_of cand = Some bs"
    and es: "validateTimeRanges bs = Some es" and nh: "filter is_hard es = []"
    and en: "enrichTimeBlocks bs = Some bs'"
    and g: "get_prop enriched ''timeblocks'' = Some (JArr bs')" by blast
  from validateTimetable_ok[OF v] bs have ne: "bs \<noteq> []"
    and ok: "\<forall>b\<in>set bs. timeBlockSchema b = []" by auto
  have "list_all2 (\<lambda>b b'. timeBlockSchema b = [] \<and> enrichBlock b = Some b' \<and>
             (\<exists>sh sm eh em. hour_min b ''start_time'' = Some (sh, sm) \<and>
                hour_min b ''end_time'' = Some (eh, em) \<and> sh * 60 + sm < eh * 60 + em)) bs bs'"
    using enrichTimeBlocks_all2[OF en] ok ranges_no_hard[OF es nh]
    by (auto simp: list_all2_conv_all_nth)
  with bs g ne show ?thesis by blast
qed

lemma valid_durations_positive:
  assumes "validateExtraction cand = Some (Valid enriched ws)"
  shows "\<exists>bs'. get_prop enriched ''timeblocks'' = Some (JArr bs') \<and> bs' \<noteq> [] \<and>
           (\<forall>b'\<in>set bs'. \<exists>q. get_prop b' ''duration_minutes'' = Some (JNum q) \<and>
              is_integer q \<and> 1 \<le> q)"
proof -
  from valid_pairs[OF assms] obtain bs bs' where
    g: "get_prop enriched ''timeblocks'' = Some (JArr bs')" and ne: "bs \<noteq> []"
    and all2: "list_all2 (\<lambda>b b'. timeBlockSchema b = [] \<and> enrichBlock b = Some b' \<and>
             (\<exists>sh sm eh em. hour_min b ''start_time'' = Some (sh, sm) \<and>
                hour_min b ''end_time'' = Some (eh, em) \<and> sh * 60 + sm < eh * 60 + em)) bs bs'"
    by blast
  have "\<exists>q. get_prop b' ''duration_minutes'' = Some (JNum q) \<and> is_integer q \<and> 1 \<le> q"
    if "b' \<in> set bs'" for b'
  proof -
    from that all2 obtain b sh sm eh em where ok: "timeBlockSchema b = []"
      and eb: "enrichBlock b = Some b'"
      and st: "hour_min b ''start_time'' = Some (sh, sm)"
      and en: "hour_min b ''end_time'' = Some (eh, em)"
      and lt: "sh * 60 + sm < eh * 60 + em"
      by (auto simp: list_all2_conv_all_nth in_set_conv_nth)
    show ?thesis
    proof (cases "get_prop b ''duration_minutes''")
      case None
      from enrichBlock_valid_missing(2)[OF ok None st en eb]
      have "get_prop b' ''duration_minutes'' =
              Some (JNum (of_int ((eh * 60 + em) - (sh * 60 + sm))))" .
      moreover from lt have "(1::rat) \<le> of_int ((eh * 60 + em) - (sh * 60 + sm))"
        by (metis of_int_1_le_iff zless_imp_add1_zle diff_ge_0_iff_ge le_diff_eq add.commute)
      ultimately show ?thesis using is_integer_of_int by blast
    next
      case (Some d)
      from enrichBlock_valid_given[OF ok Some eb] have "b' = b" .
      with timeBlockSchema_ok(4)[OF ok] Some show ?thesis by auto
    qed
  qed
  moreover from all2 ne have "bs' \<noteq> []" by auto
  ultimately show ?thesis using g by blast
qed

section \<open>Lemmas: the orchestrator\<close>

lemma processFile_valid:
  assumes "route_file e buf mt = (evs, Inr result)"
    "validateExtraction (result_data result) = Some (Valid enriched ws)"
  shows "processFile e buf mt name =
           (evs, Inr (Extracted enriched
              \<lparr>llm = result_metadata result, extractionMethod = result_extractionMethod result,
               filename = name, fileType = mt, validationWarnings = ws\<rparr>))"
  using assms by (simp add: processFile_def)

lemma processFile_invalid:
  assumes "route_file e buf mt = (evs, Inr result)"
    "validateExtraction (result_data result) = Some v" "\<not> isValid v"
  shows "processFile e buf mt name =
           (evs, Inr (ValidationFailed v (result_data result) (result_extractionMethod result)))"
  using assms by (cases v) (simp_all add: processFile_def)

lemma processFile_thrown:
  assumes "route_file e buf mt = (evs, Inl err)"
  shows "processFile e buf mt name = (evs, Inl (processing_failed err))"
  using assms by (simp add: processFile_def)

lemma processFile_Extracted:
  assumes "processFile e buf mt name = (evs, Inr (Extracted enriched meta))"
  shows "\<exists>result. route_file e buf mt = (evs, Inr result) \<and>
           validateExtraction (result_data result) = Some (Valid enriched (validationWarnings meta))"
  using assms
  by (auto simp: processFile_def split: prod.splits sum.splits option.splits validation.splits)

lemma extractTimetable_returned:
  assumes "processFile e (buffer f) (mimetype f) (originalname f) = (evs, Inr result)"
  shows "extractTimetable e (Some f) =
           (evs, \<lparr>status = 200, body = SuccessBody (file_data result) (file_metadata result)\<rparr>)"
  using assms by (simp add: extractTimetable_def)

lemma sample_vision:
  assumes "JSON_parse reply = Some j"
  shows "route_file (sample_env True p t reply) buf ''image/png'' =
           ([ProcessImage, Sharp, VisionRequest],
            Inr (Parsed \<lparr>data = j, metadata = \<lparr>model = ''gpt-4o'', tokensUsed = 900\<rparr>\<rparr>
                   ''claude-vision'' None))"
  using assms
  by (simp add: route_file_def startsWith_def processImage_def extractWithVision_def
      parse_response_def isConfigured_def sample_env_def)

section \<open>Lemmas: the sample deployment\<close>

lemma sample_reply_early:
  "JSON_parse ''{\"metadata\":{},\"timeblocks\":[{\"day\":\"Monday\",\"start_time\":\"4:00\",\"end_time\":\"9:30\",\"subject\":\"Maths\"}]}''
   = Some (JObj [(''metadata'', JObj []), (''timeblocks'', JArr [JObj [(''day'', JStr ''Monday''),
        (''start_time'', JStr ''4:00''), (''end_time'', JStr ''9:30''), (''subject'', JStr ''Maths'')]])])"
  by code_simp

lemma sample_early_validated:
  "validateExtraction (Some (JObj [(''metadata'', JObj []), (''timeblocks'', JArr [JObj [(''day'', JStr ''Monday''),
        (''start_time'', JStr ''4:00''), (''end_time'', JStr ''9:30''), (''subject'', JStr ''Maths'')]])]))
   = Some (Valid (JObj [(''metadata'', JObj []), (''timeblocks'', JArr [JObj [(''day'', JStr ''Monday''),
        (''start_time'', JStr ''4:00''), (''end_time'', JStr ''9:30''), (''subject'', JStr ''Maths''),
        (''duration_minutes'', JNum 330)]])])
      [(Some (JStr ''Maths''), ''Time outside reasonable school hours'')])"
  by code_simp

section \<open>Lemmas: codes and statuses\<close>

lemma processImage_code:
  "processImage e buf mt = (evs, Inl err) \<Longrightarrow> code err = Some ''IMAGE_PROCESSING_FAILED''"
  by (auto simp: processImage_def Let_def image_failed_def split: if_splits prod.splits sum.splits)

lemma processPDF_code:
  "processPDF e buf = (evs, Inl err) \<Longrightarrow> code err = Some ''PDF_PROCESSING_FAILED''"
  by (auto simp: processPDF_def pdf_failed_def split: if_splits prod.splits sum.splits)

lemma route_file_code:
  "route_file e buf mt = (evs, Inl err) \<Longrightarrow>
   code err = Some ''IMAGE_PROCESSING_FAILED'' \<or> code err = Some ''PDF_PROCESSING_FAILED'' \<or>
   code err = Some ''UNSUPPORTED_FILE_TYPE''"
  by (auto simp: route_file_def dest: processImage_code processPDF_code split: if_splits)

lemma processFile_code:
  assumes "processFile e buf mt name = (evs, Inl err)"
  shows "code err = Some ''IMAGE_PROCESSING_FAILED'' \<or> code err = Some ''PDF_PROCESSING_FAILED'' \<or>
   code err = Some ''UNSUPPORTED_FILE_TYPE''"
proof -
  obtain evs' r where r: "route_file e buf mt = (evs', r)" by (cases "route_file e buf mt")
  show ?thesis
  proof (cases r)
    case (Inl err')
    from route_file_code[OF r[unfolded Inl]] have c: "code err' = Some ''IMAGE_PROCESSING_FAILED'' \<or>
      code err' = Some ''PDF_PROCESSING_FAILED'' \<or> code err' = Some ''UNSUPPORTED_FILE_TYPE''" .
    then have "processing_failed err' = err'" by (auto simp: processing_failed_def)
    with assms r Inl c show ?thesis by (simp add: processFile_def)
  next
    case (Inr result)
    from validateExtraction_returns obtain v where "validateExtraction (result_data result) = Some v" ..
    with assms r Inr show ?thesis by (cases v) (simp_all add: processFile_def)
  qed
qed

lemma statusCode_simps:
  "statusCode (Some ''IMAGE_PROCESSING_FAILED'') = 500"
  "statusCode (Some ''PDF_PROCESSING_FAILED'') = 500"
  "statusCode (Some ''UNSUPPORTED_FILE_TYPE'') = 415"
  "statusCode (Some ''VALIDATION_FAILED'') = 422"
  by code_simp+

lemma extractTimetable_status:
  "status (snd (extractTimetable e upl)) \<in> {200, 400, 415, 500}"
proof (cases upl)
  case None
  then show ?thesis by (simp add: extractTimetable_def)
next
  case (Some f)
  obtain evs r where p: "processFile e (buffer f) (mimetype f) (originalname f) = (evs, r)"
    by (cases "processFile e (buffer f) (mimetype f) (originalname f)")
  show ?thesis
  proof (cases r)
    case (Inl err)
    from processFile_code[OF p[unfolded Inl]] Some p Inl show ?thesis
      by (auto simp: extractTimetable_def statusCode_simps)
  next
    case (Inr result)
    with Some p show ?thesis by (simp add: extractTimetable_def)
  qed
qed

lemma post_extract_status:
  "status (snd (post_extract e req)) \<in> {200, 400, 413, 415, 500}"
proof -
  have "status (snd (extractTimetable e upl)) \<in> {200, 400, 413, 415, 500}" for upl
    using extractTimetable_status[of e upl] by auto
  then show ?thesis
    by (auto simp: post_extract_def fileFilter_def split: option.splits if_splits)
qed

lemma sample_reply_empty:
  "JSON_parse ''{\"metadata\":{},\"timeblocks\":[]}'' =
     Some (JObj [(''metadata'', JObj []), (''timeblocks'', JArr [])])"
  by code_simp

lemma sample_env_accepts_png:
  "fileFilter (sample_env v p t reply) \<lparr>buffer = ''img'', mimetype = ''image/png'', originalname = ''t.png''\<rparr> = None"
  "length (buffer \<lparr>buffer = ''img'', mimetype = ''image/png'', originalname = ''t.png''\<rparr>)
     \<le> maxFileSize (sample_env v p t reply)"
  by (simp_all add: fileFilter_def sample_env_def)

lemma route_file_pdf: "route_file e buf ''application/pdf'' = processPDF e buf"
  by (simp add: route_file_def startsWith_def)

section \<open>Lemmas: the image processor\<close>

lemma extractFromText_events:
  "isConfigured e \<Longrightarrow> fst (extractFromText e text) = [TextRequest]"
  by (simp add: extractFromText_def isConfigured_def split: sum.splits)

lemma extractWithVision_events:
  "isConfigured e \<Longrightarrow> fst (extractWithVision e img mt) = [VisionRequest]"
  by (simp add: extractWithVision_def isConfigured_def split: sum.splits)

lemma extractWithOCR_events:
  assumes "isConfigured e"
  shows "fst (extractWithOCR e img) = [OCR] \<or> fst (extractWithOCR e img) = [OCR, TextRequest]"
proof (cases "performOCR e img")
  case (Inl err)
  then show ?thesis by (simp add: extractWithOCR_def)
next
  case (Inr tc)
  obtain t c where tc: "tc = (t, c)" by (cases tc)
  obtain evs r where x: "extractFromText e t = (evs, r)" by (cases "extractFromText e t")
  with extractFromText_events[OF assms, of t] have "evs = [TextRequest]" by simp
  with Inr tc x assms show ?thesis
    by (cases r) (simp_all add: extractWithOCR_def)
qed

lemma extractWithOCR_low_quality:
  assumes "performOCR e img = Inr (text, confidence)"
    "confidence < ocrConfidenceThreshold e \<or> length (trim text) < 50"
  shows "extractWithOCR e img =
           ([OCR], Inl (Error (if confidence < ocrConfidenceThreshold e
                              then OcrConfidenceTooLow confidence
                              else Msg ''Insufficient text extracted from image. Image may be unclear or contain no timetable data.'')))"
  using assms by (auto simp: extractWithOCR_def)

lemma processImage_fallback:
  assumes "enableLLMVision e" "isConfigured e" "enableOCR e"
    and "extractWithVision e (preprocessImage e buf) mt = (evs, Inl visionError)"
  shows "processImage e buf mt =
           ([ProcessImage, Sharp] @ evs @ fst (extractWithOCR e (preprocessImage e buf)),
            (case snd (extractWithOCR e (preprocessImage e buf)) of
               Inl err \<Rightarrow> Inl (image_failed err) | Inr r \<Rightarrow> Inr r))"
  using assms
  by (cases "extractWithOCR e (preprocessImage e buf)")
     (auto simp: processImage_def Let_def split: sum.splits)

lemma trim_Nil [simp]: "trim [] = []"
  by (simp add: trim_def)

lemma extractWithOCR_good:
  assumes "isConfigured e" "performOCR e img = Inr (t, c)"
    "\<not> c < ocrConfidenceThreshold e" "50 \<le> length (trim t)"
  shows "extractWithOCR e img =
           ([OCR, TextRequest],
            (case chat_text e t of
               Inl err \<Rightarrow> Inl err
             | Inr response \<Rightarrow>
                 (case parse_response response of
                    Inl err \<Rightarrow> Inl err
                  | Inr result \<Rightarrow> Inr (Parsed result ''ocr + llm-text'' (Some c)))))"
proof -
  from assms(4) have "t \<noteq> []" by auto
  with assms show ?thesis
    by (auto simp: extractWithOCR_def extractFromText_def isConfigured_def split: sum.splits)
qed

lemma extractWithOCR_thrown:
  "performOCR e img = Inl err \<Longrightarrow> extractWithOCR e img = ([OCR], Inl err)"
  by (simp add: extractWithOCR_def)

section \<open>Lemmas: the router\<close>

lemma route_file_gif: "route_file e buf ''image/gif'' = processImage e buf ''image/gif''"
  by (simp add: route_file_def startsWith_def)

lemma extractFromText_set: "set (fst (extractFromText e t)) \<subseteq> {TextRequest}"
  by (simp add: extractFromText_def split: sum.splits)

lemma extractWithVision_set: "set (fst (extractWithVision e img mt)) \<subseteq> {VisionRequest}"
  by (simp add: extractWithVision_def split: sum.splits)

lemma extractWithOCR_set: "set (fst (extractWithOCR e img)) \<subseteq> {OCR, TextRequest}"
proof (cases "performOCR e img")
  case (Inl err)
  then show ?thesis by (simp add: extractWithOCR_def)
next
  case (Inr tc)
  obtain t c where tc: "tc = (t, c)" by (cases tc)
  obtain evs r where x: "extractFromText e t = (evs, r)" by (cases "extractFromText e t")
  with extractFromText_set[of e t] have "set evs \<subseteq> {TextRequest}" by simp
  with Inr tc x show ?thesis
    by (cases r) (auto simp: extractWithOCR_def)
qed

lemma processImage_events:
  "\<exists>rest. fst (processImage e buf mt) = ProcessImage # Sharp # rest \<and>
          set rest \<subseteq> {VisionRequest, OCR, TextRequest}"
proof -
  let ?img = "preprocessImage e buf"
  obtain ev1 r1 where v: "extractWithVision e ?img mt = (ev1, r1)"
    by (cases "extractWithVision e ?img mt")
  obtain ev2 r2 where o: "extractWithOCR e ?img = (ev2, r2)"
    by (cases "extractWithOCR e ?img")
  from v extractWithVision_set[of e ?img mt] have 1: "set ev1 \<subseteq> {VisionRequest}" by simp
  from o extractWithOCR_set[of e ?img] have 2: "set ev2 \<subseteq> {OCR, TextRequest}" by simp
  show ?thesis using v o 1 2
    by (cases r1; cases r2) (auto simp: processImage_def Let_def)
qed

lemma route_file_image:
  "startsWith mt ''image/'' \<Longrightarrow> route_file e buf mt = processImage e buf mt"
  by (simp add: route_file_def)

lemma route_file_other:
  "\<not> startsWith mt ''image/'' \<Longrightarrow> mt \<noteq> ''application/pdf'' \<Longrightarrow>
   route_file e buf mt =
     ([], Inl \<lparr>code = Some ''UNSUPPORTED_FILE_TYPE'',
                message = Msg (''File type '' @ mt @ '' is not supported''),
                details = Text ''Supported types: image/png, image/jpeg, application/pdf''\<rparr>)"
  by (simp add: route_file_def)

lemma processFile_image:
  assumes "startsWith mt ''image/''"
  shows "take 2 (fst (processFile e buf mt name)) = [ProcessImage, Sharp]"
    and "ProcessPDF \<notin> set (fst (processFile e buf mt name))"
    and "PdfParse \<notin> set (fst (processFile e buf mt name))"
    and "snd (processFile e buf mt name) = Inl err \<Longrightarrow> code err = Some ''IMAGE_PROCESSING_FAILED''"
proof -
  note ri = route_file_image[OF assms]
  obtain evs r where rf: "route_file e buf mt = (evs, r)"
    by (cases "route_file e buf mt")
  from processImage_events[of e buf mt] rf obtain rest where
    evs: "evs = ProcessImage # Sharp # rest" "set rest \<subseteq> {VisionRequest, OCR, TextRequest}"
    by (auto simp: ri)
  have pf: "fst (processFile e buf mt name) = evs"
    using rf by (cases r) (auto simp: processFile_def split: option.splits validation.splits)
  from pf evs show "take 2 (fst (processFile e buf mt name)) = [ProcessImage, Sharp]"
    "ProcessPDF \<notin> set (fst (processFile e buf mt name))"
    "PdfParse \<notin> set (fst (processFile e buf mt name))"
    by auto
  show "code err = Some ''IMAGE_PROCESSING_FAILED''"
    if "snd (processFile e buf mt name) = Inl err"
  proof (cases r)
    case (Inl err')
    from rf Inl have "processImage e buf mt = (evs, Inl err')" by (simp add: ri)
    from processImage_code[OF this] have c': "code err' = Some ''IMAGE_PROCESSING_FAILED''" .
    then have "processing_failed err' = err'" by (simp add: processing_failed_def)
    with processFile_thrown[OF rf[unfolded Inl], of name] that c' show ?thesis by simp
  next
    case (Inr result)
    from validateExtraction_returns obtain v where "validateExtraction (result_data result) = Some v" ..
    with rf Inr that show ?thesis by (cases v) (simp_all add: processFile_def)
  qed
qed

lemma sample_reply_braces: "JSON_parse ''{}'' = Some (JObj [])"
  by code_simp

section \<open>Lemmas: the replies of the model\<close>

lemma JSON_parse_bad_start:
  assumes "skip_ws s = c # rest"
    and "c \<notin> set ''{[tfn-0123456789''" "c \<noteq> CHR 0x22"
  shows "JSON_parse s = None"
proof -
  from assms(2) have nd: "\<not> is_digit c" by (auto simp: is_digit_def)
  from assms(2) have "\<not> startsWith (c # rest) ''true''" "\<not> startsWith (c # rest) ''false''"
    "\<not> startsWith (c # rest) ''null''"
    by (auto simp: startsWith_def)
  moreover from assms(2) nd have "parse_number (c # rest) = None"
    by (simp add: parse_number_def Let_def)
  ultimately have "parse_value (Suc (length s)) s = None"
    using assms by simp
  then show ?thesis by (simp add: JSON_parse_def)
qed

lemma jsonMatch_None:
  "jsonMatch s = None \<longleftrightarrow> CHR ''}'' \<notin> set (dropWhile (\<lambda>c. c \<noteq> CHR ''{'') s)"
  by (auto simp: jsonMatch_def Let_def dropWhile_eq_Nil_conv)

lemma jsonMatch_Some:
  assumes "jsonMatch s = Some m"
  shows "\<exists>pre post. s = pre @ m @ post \<and> CHR ''{'' \<notin> set pre \<and> CHR ''}'' \<notin> set post \<and>
           hd m = CHR ''{'' \<and> last m = CHR ''}''"
proof -
  let ?P = "\<lambda>c. c \<noteq> CHR ''{''" and ?Q = "\<lambda>c. c \<noteq> CHR ''}''"
  let ?pre = "takeWhile ?P s" and ?r = "dropWhile ?P s"
  let ?post = "rev (takeWhile ?Q (rev ?r))"
  from assms have m: "m = rev (dropWhile ?Q (rev ?r))" and ne: "m \<noteq> []"
    by (auto simp: jsonMatch_def Let_def split: if_splits)
  have "rev ?r = takeWhile ?Q (rev ?r) @ dropWhile ?Q (rev ?r)" by simp
  then have "rev (rev ?r) = rev (takeWhile ?Q (rev ?r) @ dropWhile ?Q (rev ?r))" by simp
  then have r: "?r = m @ ?post" using m by (simp only: rev_rev_ident rev_append)
  have s: "s = ?pre @ m @ ?post" using r takeWhile_dropWhile_id[of ?P s] by simp
  have 1: "CHR ''{'' \<notin> set ?pre" by (auto dest: set_takeWhileD)
  have 2: "CHR ''}'' \<notin> set ?post" by (auto dest: set_takeWhileD)
  from ne m have dne: "dropWhile ?Q (rev ?r) \<noteq> []" by simp
  then have "hd (dropWhile ?Q (rev ?r)) = CHR ''}''" using hd_dropWhile[of ?Q "rev ?r"] by simp
  with dne m have 3: "last m = CHR ''}''" by (simp add: last_rev)
  have rne: "?r \<noteq> []"
  proof
    assume "?r = []"
    with r have "m @ ?post = []" by (simp only:)
    with ne show False by simp
  qed
  then have "hd ?r = CHR ''{''" using hd_dropWhile[of ?P s] by simp
  with r ne have 4: "hd m = CHR ''{''" by (metis hd_append2)
  from s 1 2 3 4 show ?thesis by blast
qed

lemma extractWithVision_reply:
  "openaiApiKey e \<Longrightarrow> chat_image e img mt = Inr r \<Longrightarrow>
   extractWithVision e img mt = ([VisionRequest], parse_response r)"
  by (simp add: extractWithVision_def)

lemma extractFromText_reply:
  "openaiApiKey e \<Longrightarrow> chat_text e t = Inr r \<Longrightarrow>
   extractFromText e t = ([TextRequest], parse_response r)"
  by (simp add: extractFromText_def)

lemma extractWithVision_claude_reply:
  "chat_image e img mt = Inr r \<Longrightarrow>
   extractWithVision_claude True e img mt = ([VisionRequest], parse_response_claude r)"
  by (simp add: extractWithVision_claude_def)

lemma extractFromText_claude_reply:
  "chat_text e t = Inr r \<Longrightarrow>
   extractFromText_claude True e t = ([TextRequest], parse_response_claude r)"
  by (simp add: extractFromText_claude_def)

lemma sample_prose_reply:
  "JSON_parse ''Result: {}'' = None" "jsonMatch ''Result: {}'' = Some ''{}''"
  "jsonMatch ''{} or {}'' = Some ''{} or {}''" "JSON_parse ''{} or {}'' = None"
  by code_simp+

section \<open>The validator\<close>

text \<open>
  C9. A candidate whose \<^verbatim>\<open>timeblocks\<close> is the empty list fails the schema check, whatever
  else it holds: the issues include the one of \<^verbatim>\<open>min(1)\<close> at the path \<^verbatim>\<open>timeblocks\<close>, and
  \<^verbatim>\<open>validateExtraction\<close> returns these issues with \<^verbatim>\<open>isValid: false\<close>, so no enriched
  data is produced.
\<close>

theorem empty_timeblocks_rejected:
  assumes "get_prop cand ''timeblocks'' = Some (JArr [])"
  shows "\<exists>iss. validateTimetable (Some cand) = Inl iss \<and>
           ([Key ''timeblocks''], ''At least one timeblock is required'') \<in> set iss \<and>
           validateExtraction (Some cand) = Some (SchemaInvalid iss) \<and>
           \<not> isValid (SchemaInvalid iss)"
proof -
  from assms obtain kvs where c: "cand = JObj kvs" by (cases cand) auto
  let ?iss = "timetableExtractionSchema (Some cand)"
  from assms c have mem: "([Key ''timeblocks''], ''At least one timeblock is required'') \<in> set ?iss"
    by (simp add: Let_def under_seg_def)
  then have "?iss \<noteq> []" by auto
  then have "validateTimetable (Some cand) = Inl ?iss" by (rule validateTimetable_Inl)
  then show ?thesis using mem by (auto simp: validateExtraction_def)
qed

theorem empty_timeblocks_rejected_witness:
  "get_prop (JObj [(''metadata'', JObj []), (''timeblocks'', JArr [])]) ''timeblocks'' =
     Some (JArr []) \<and>
   (\<exists>iss. validateExtraction (Some (JObj [(''metadata'', JObj []), (''timeblocks'', JArr [])]))
      = Some (SchemaInvalid iss))"
  using empty_timeblocks_rejected [of "JObj [(''metadata'', JObj []), (''timeblocks'', JArr [])]"]
  by auto

text \<open>
  C4. A block whose end, in minutes since midnight, is not after its start gets an entry
  without severity from \<^verbatim>\<open>validateTimeRanges\<close>, which \<^verbatim>\<open>validateExtraction\<close> counts
  as an error and not as a warning. Whatever else the candidate holds, the result is
  invalid: either the schema has already rejected the candidate, or the errors returned
  name the block by its subject with the message of the source.
\<close>

theorem end_not_after_start_rejected:
  assumes "timeblocks_of cand = Some bs" "b \<in> set bs"
    "hour_min b ''start_time'' = Some (sh, sm)" "hour_min b ''end_time'' = Some (eh, em)"
    "eh * 60 + em \<le> sh * 60 + sm"
  shows "(\<exists>v. validateExtraction cand = Some v \<and> \<not> isValid v) \<and>
         (\<forall>es. validateTimeRanges bs = Some es \<longrightarrow>
            \<lparr>block = b, error = ''End time must be after start time'', severity = None\<rparr>
              \<in> set (filter is_hard es)) \<and>
         ((\<exists>iss. validateExtraction cand = Some (SchemaInvalid iss)) \<or>
          (\<exists>errs ws. validateExtraction cand = Some (RangesInvalid errs ws) \<and>
             (get_prop b ''subject'', ''End time must be after start time'') \<in> set errs))"
proof -
  let ?e = "\<lparr>block = b, error = ''End time must be after start time'', severity = None\<rparr>"
  have mid: "\<forall>es. validateTimeRanges bs = Some es \<longrightarrow> ?e \<in> set (filter is_hard es)"
    using ranges_end_before_start[OF _ assms(2-5)] by auto
  have last: "(\<exists>iss. validateExtraction cand = Some (SchemaInvalid iss)) \<or>
          (\<exists>errs ws. validateExtraction cand = Some (RangesInvalid errs ws) \<and>
             (get_prop b ''subject'', ''End time must be after start time'') \<in> set errs)"
  proof (cases "validateTimetable cand")
    case (Inl iss)
    then show ?thesis by (simp add: validateExtraction_def)
  next
    case (Inr u)
    from validateTimetable_ok[OF this] assms(1) have ok: "\<forall>b\<in>set bs. timeBlockSchema b = []"
      by auto
    from validateTimeRanges_returns[OF ok] obtain es where es: "validateTimeRanges bs = Some es" ..
    from ranges_end_before_start[OF es assms(2-5)] have mem: "?e \<in> set es" .
    then have "?e \<in> set (filter is_hard es)" by simp
    then have ne: "filter is_hard es \<noteq> []" by (metis empty_iff list.set(1))
    from Inr have "validateTimetable cand = Inr ()" by simp
    from validateExtraction_hard[OF this assms(1) es ne] mem
    have "validateExtraction cand =
           Some (RangesInvalid (map summary (filter is_hard es)) (filter is_warning es))"
      and "summary ?e \<in> set (map summary (filter is_hard es))" by auto
    then show ?thesis by (auto simp: summary_def)
  qed
  from last have "\<exists>v. validateExtraction cand = Some v \<and> \<not> isValid v" by auto
  with mid last show ?thesis by blast
qed

theorem end_not_after_start_rejected_witness:
  "validateExtraction (Some (JObj [(''metadata'', JObj []), (''timeblocks'', JArr [
      JObj [(''day'', JStr ''Monday''), (''start_time'', JStr ''10:00''),
            (''end_time'', JStr ''9:30''), (''subject'', JStr ''Maths'')]])]))
   = Some (RangesInvalid [(Some (JStr ''Maths''), ''End time must be after start time'')] [])"
proof -
  let ?b = "JObj [(''day'', JStr ''Monday''), (''start_time'', JStr ''10:00''),
            (''end_time'', JStr ''9:30''), (''subject'', JStr ''Maths'')]"
  let ?c = "Some (JObj [(''metadata'', JObj []), (''timeblocks'', JArr [?b])])"
  have 1: "timeblocks_of ?c = Some [?b]" by code_simp
  have 2: "?b \<in> set [?b]" by simp
  have 3: "hour_min ?b ''start_time'' = Some (10, 0)" by code_simp
  have 4: "hour_min ?b ''end_time'' = Some (9, 30)" by code_simp
  have 5: "(9::int) * 60 + 30 \<le> 10 * 60 + 0" by simp
  have "\<exists>v. validateExtraction ?c = Some v \<and> \<not> isValid v"
    using end_not_after_start_rejected [OF 1 2 3 4 5] by blast
  moreover have "validateExtraction ?c
     = Some (RangesInvalid [(Some (JStr ''Maths''), ''End time must be after start time'')] [])"
    by code_simp
  ultimately show ?thesis by simp
qed

text \<open>
  C10. In data that \<^verbatim>\<open>validateExtraction\<close> returns as enriched, and so in the data of every
  successful result of \<^verbatim>\<open>processFile\<close>, every block carries a \<^verbatim>\<open>duration_minutes\<close> that is
  an integer of at least 1, and there is at least one block.
\<close>

theorem durations_positive:
  "(validateExtraction cand = Some (Valid enriched ws) \<longrightarrow>
      (\<exists>bs'. get_prop enriched ''timeblocks'' = Some (JArr bs') \<and> bs' \<noteq> [] \<and>
         (\<forall>b'\<in>set bs'. \<exists>q. get_prop b' ''duration_minutes'' = Some (JNum q) \<and>
            is_integer q \<and> 1 \<le> q))) \<and>
   (processFile e buf mt name = (evs, Inr result) \<and> file_success result \<longrightarrow>
      (\<exists>returned bs'. file_data result = Some returned \<and>
         get_prop returned ''timeblocks'' = Some (JArr bs') \<and> bs' \<noteq> [] \<and>
         (\<forall>b'\<in>set bs'. \<exists>q. get_prop b' ''duration_minutes'' = Some (JNum q) \<and>
            is_integer q \<and> 1 \<le> q)))"
proof (intro conjI impI)
  assume "validateExtraction cand = Some (Valid enriched ws)"
  then show "\<exists>bs'. get_prop enriched ''timeblocks'' = Some (JArr bs') \<and> bs' \<noteq> [] \<and>
         (\<forall>b'\<in>set bs'. \<exists>q. get_prop b' ''duration_minutes'' = Some (JNum q) \<and>
            is_integer q \<and> 1 \<le> q)"
    by (rule valid_durations_positive)
next
  assume a: "processFile e buf mt name = (evs, Inr result) \<and> file_success result"
  then obtain returned meta where r: "result = Extracted returned meta"
    by (cases result) auto
  with a processFile_Extracted[of e buf mt name evs returned meta] obtain res where
    "validateExtraction (result_data res) = Some (Valid returned (validationWarnings meta))"
    by auto
  from valid_durations_positive[OF this] r
  show "\<exists>returned bs'. file_data result = Some returned \<and>
         get_prop returned ''timeblocks'' = Some (JArr bs') \<and> bs' \<noteq> [] \<and>
         (\<forall>b'\<in>set bs'. \<exists>q. get_prop b' ''duration_minutes'' = Some (JNum q) \<and>
            is_integer q \<and> 1 \<le> q)"
    by auto
qed

theorem durations_positive_witness:
  "validateExtraction (Some (JObj [(''metadata'', JObj []), (''timeblocks'', JArr [JObj [(''day'', JStr ''Monday''),
        (''start_time'', JStr ''4:00''), (''end_time'', JStr ''9:30''), (''subject'', JStr ''Maths'')]])]))
   = Some (Valid (JObj [(''metadata'', JObj []), (''timeblocks'', JArr [JObj [(''day'', JStr ''Monday''),
        (''start_time'', JStr ''4:00''), (''end_time'', JStr ''9:30''), (''subject'', JStr ''Maths''),
        (''duration_minutes'', JNum 330)]])])
      [(Some (JStr ''Maths''), ''Time outside reasonable school hours'')]) \<and>
   (\<exists>bs'. get_prop (JObj [(''metadata'', JObj []), (''timeblocks'', JArr [JObj [(''day'', JStr ''Monday''),
        (''start_time'', JStr ''4:00''), (''end_time'', JStr ''9:30''), (''subject'', JStr ''Maths''),
        (''duration_minutes'', JNum 330)]])]) ''timeblocks'' = Some (JArr bs') \<and> bs' \<noteq> [] \<and>
      (\<forall>b'\<in>set bs'. \<exists>q. get_prop b' ''duration_minutes'' = Some (JNum q) \<and> is_integer q \<and> 1 \<le> q)) \<and>
   (\<exists>evs result. processFile (sample_env True 90 []
        ''{\"metadata\":{},\"timeblocks\":[{\"day\":\"Monday\",\"start_time\":\"4:00\",\"end_time\":\"9:30\",\"subject\":\"Maths\"}]}'')
        ''img'' ''image/png'' ''t.png'' = (evs, Inr result) \<and> file_success result \<and>
      (\<exists>returned bs'. file_data result = Some returned \<and>
         get_prop returned ''timeblocks'' = Some (JArr bs') \<and> bs' \<noteq> [] \<and>
         (\<forall>b'\<in>set bs'. \<exists>q. get_prop b' ''duration_minutes'' = Some (JNum q) \<and>
            is_integer q \<and> 1 \<le> q)))"
proof -
  let ?b = "JObj [(''day'', JStr ''Monday''), (''start_time'', JStr ''4:00''),
    (''end_time'', JStr ''9:30''), (''subject'', JStr ''Maths'')]"
  let ?b' = "JObj [(''day'', JStr ''Monday''), (''start_time'', JStr ''4:00''),
    (''end_time'', JStr ''9:30''), (''subject'', JStr ''Maths''), (''duration_minutes'', JNum 330)]"
  let ?c = "JObj [(''metadata'', JObj []), (''timeblocks'', JArr [?b])]"
  let ?c' = "JObj [(''metadata'', JObj []), (''timeblocks'', JArr [?b'])]"
  let ?ws = "[(Some (JStr ''Maths''), ''Time outside reasonable school hours'')]"
  let ?e = "sample_env True 90 []
        ''{\"metadata\":{},\"timeblocks\":[{\"day\":\"Monday\",\"start_time\":\"4:00\",\"end_time\":\"9:30\",\"subject\":\"Maths\"}]}''"
  let ?r = "Parsed \<lparr>data = ?c, metadata = \<lparr>model = ''gpt-4o'', tokensUsed = 900\<rparr>\<rparr> ''claude-vision'' None"
  let ?m = "\<lparr>llm = result_metadata ?r, extractionMethod = result_extractionMethod ?r,
               filename = ''t.png'', fileType = ''image/png'', validationWarnings = ?ws\<rparr>"
  have v: "validateExtraction (Some ?c) = Some (Valid ?c' ?ws)" by (rule sample_early_validated)
  have r: "route_file ?e ''img'' ''image/png'' = ([ProcessImage, Sharp, VisionRequest], Inr ?r)"
    by (rule sample_vision[OF sample_reply_early])
  have "validateExtraction (result_data ?r) = Some (Valid ?c' ?ws)" using v by simp
  from processFile_valid[OF r this]
  have p: "processFile ?e ''img'' ''image/png'' ''t.png'' =
     ([ProcessImage, Sharp, VisionRequest], Inr (Extracted ?c' ?m))" .
  have s: "file_success (Extracted ?c' ?m)" by simp
  from durations_positive[of "Some ?c" ?c' ?ws ?e "''img''" "''image/png''" "''t.png''"
      "[ProcessImage, Sharp, VisionRequest]" "Extracted ?c' ?m"] v p s
  show ?thesis by blast
qed

text \<open>
  C3, as the code has it. Enrichment touches only a block without \<^verbatim>\<open>duration_minutes\<close>:
  such a block gets \<^verbatim>\<open>end_minutes - start_minutes\<close>, and a block that came with a
  duration is returned as it is. The blocks are compared pairwise, in order, with the
  blocks of the candidate.
\<close>

theorem enrichment_fills_missing_durations:
  assumes "validateExtraction cand = Some (Valid enriched ws)"
  shows "\<exists>bs bs'. timeblocks_of cand = Some bs \<and>
           get_prop enriched ''timeblocks'' = Some (JArr bs') \<and>
           list_all2 (\<lambda>b b'. \<exists>sh sm eh em.
               hour_min b ''start_time'' = Some (sh, sm) \<and>
               hour_min b ''end_time'' = Some (eh, em) \<and>
               (case get_prop b ''duration_minutes'' of
                  None \<Rightarrow>
                    b' = set_prop ''duration_minutes''
                           (JNum (of_int ((eh * 60 + em) - (sh * 60 + sm)))) b \<and>
                    get_prop b' ''duration_minutes'' =
                      Some (JNum (of_int ((eh * 60 + em) - (sh * 60 + sm))))
                | Some d \<Rightarrow> b' = b)) bs bs'"
proof -
  from valid_pairs[OF assms] obtain bs bs' where
    t: "timeblocks_of cand = Some bs"
    and g: "get_prop enriched ''timeblocks'' = Some (JArr bs')"
    and all2: "list_all2 (\<lambda>b b'. timeBlockSchema b = [] \<and> enrichBlock b = Some b' \<and>
             (\<exists>sh sm eh em. hour_min b ''start_time'' = Some (sh, sm) \<and>
                hour_min b ''end_time'' = Some (eh, em) \<and> sh * 60 + sm < eh * 60 + em)) bs bs'"
    by blast
  have step: "\<exists>sh sm eh em.
               hour_min b ''start_time'' = Some (sh, sm) \<and>
               hour_min b ''end_time'' = Some (eh, em) \<and>
               (case get_prop b ''duration_minutes'' of
                  None \<Rightarrow>
                    b' = set_prop ''duration_minutes''
                           (JNum (of_int ((eh * 60 + em) - (sh * 60 + sm)))) b \<and>
                    get_prop b' ''duration_minutes'' =
                      Some (JNum (of_int ((eh * 60 + em) - (sh * 60 + sm))))
                | Some d \<Rightarrow> b' = b)"
    if ok: "timeBlockSchema b = []" and eb: "enrichBlock b = Some b'"
      and st: "hour_min b ''start_time'' = Some (sh, sm)"
      and en: "hour_min b ''end_time'' = Some (eh, em)" for b b' sh sm eh em
  proof (cases "get_prop b ''duration_minutes''")
    case None
    from enrichBlock_valid_missing[OF ok None st en eb] st en None show ?thesis
      by (auto simp only: option.case)
  next
    case (Some d)
    from enrichBlock_valid_given[OF ok Some eb] st en Some show ?thesis
      by (auto simp only: option.case)
  qed
  have "list_all2 (\<lambda>b b'. \<exists>sh sm eh em.
               hour_min b ''start_time'' = Some (sh, sm) \<and>
               hour_min b ''end_time'' = Some (eh, em) \<and>
               (case get_prop b ''duration_minutes'' of
                  None \<Rightarrow>
                    b' = set_prop ''duration_minutes''
                           (JNum (of_int ((eh * 60 + em) - (sh * 60 + sm)))) b \<and>
                    get_prop b' ''duration_minutes'' =
                      Some (JNum (of_int ((eh * 60 + em) - (sh * 60 + sm))))
                | Some d \<Rightarrow> b' = b)) bs bs'"
    by (rule list_all2_mono[OF all2]) (use step in blast)
  with t g show ?thesis by blast
qed

theorem enrichment_fills_missing_durations_witness:
  "validateExtraction (Some (JObj [(''metadata'', JObj []), (''timeblocks'', JArr [
      JObj [(''day'', JStr ''Monday''), (''start_time'', JStr ''9:00''), (''end_time'', JStr ''9:30''),
            (''subject'', JStr ''Maths'')],
      JObj [(''day'', JStr ''Monday''), (''start_time'', JStr ''10:30''), (''end_time'', JStr ''10:45''),
            (''duration_minutes'', JNum 20), (''subject'', JStr ''Break'')]])]))
   = Some (Valid (JObj [(''metadata'', JObj []), (''timeblocks'', JArr [
      JObj [(''day'', JStr ''Monday''), (''start_time'', JStr ''9:00''), (''end_time'', JStr ''9:30''),
            (''subject'', JStr ''Maths''), (''duration_minutes'', JNum 30)],
      JObj [(''day'', JStr ''Monday''), (''start_time'', JStr ''10:30''), (''end_time'', JStr ''10:45''),
            (''duration_minutes'', JNum 20), (''subject'', JStr ''Break'')]])]) []) \<and>
   (\<exists>bs bs'. timeblocks_of (Some (JObj [(''metadata'', JObj []), (''timeblocks'', JArr [
      JObj [(''day'', JStr ''Monday''), (''start_time'', JStr ''9:00''), (''end_time'', JStr ''9:30''),
            (''subject'', JStr ''Maths'')],
      JObj [(''day'', JStr ''Monday''), (''start_time'', JStr ''10:30''), (''end_time'', JStr ''10:45''),
            (''duration_minutes'', JNum 20), (''subject'', JStr ''Break'')]])])) = Some bs \<and>
           get_prop (JObj [(''metadata'', JObj []), (''timeblocks'', JArr [
      JObj [(''day'', JStr ''Monday''), (''start_time'', JStr ''9:00''), (''end_time'', JStr ''9:30''),
            (''subject'', JStr ''Maths''), (''duration_minutes'', JNum 30)],
      JObj [(''day'', JStr ''Monday''), (''start_time'', JStr ''10:30''), (''end_time'', JStr ''10:45''),
            (''duration_minutes'', JNum 20), (''subject'', JStr ''Break'')]])]) ''timeblocks'' = Some (JArr bs') \<and>
           list_all2 (\<lambda>b b'. \<exists>sh sm eh em.
               hour_min b ''start_time'' = Some (sh, sm) \<and>
               hour_min b ''end_time'' = Some (eh, em) \<and>
               (case get_prop b ''duration_minutes'' of
                  None \<Rightarrow>
                    b' = set_prop ''duration_minutes''
                           (JNum (of_int ((eh * 60 + em) - (sh * 60 + sm)))) b \<and>
                    get_prop b' ''duration_minutes'' =
                      Some (JNum (of_int ((eh * 60 + em) - (sh * 60 + sm))))
                | Some d \<Rightarrow> b' = b)) bs bs')"
proof -
  have v: "validateExtraction (Some (JObj [(''metadata'', JObj []), (''timeblocks'', JArr [
      JObj [(''day'', JStr ''Monday''), (''start_time'', JStr ''9:00''), (''end_time'', JStr ''9:30''),
            (''subject'', JStr ''Maths'')],
      JObj [(''day'', JStr ''Monday''), (''start_time'', JStr ''10:30''), (''end_time'', JStr ''10:45''),
            (''duration_minutes'', JNum 20), (''subject'', JStr ''Break'')]])]))
   = Some (Valid (JObj [(''metadata'', JObj []), (''timeblocks'', JArr [
      JObj [(''day'', JStr ''Monday''), (''start_time'', JStr ''9:00''), (''end_time'', JStr ''9:30''),
            (''subject'', JStr ''Maths''), (''duration_minutes'', JNum 30)],
      JObj [(''day'', JStr ''Monday''), (''start_time'', JStr ''10:30''), (''end_time'', JStr ''10:45''),
            (''duration_minutes'', JNum 20), (''subject'', JStr ''Break'')]])]) [])" by code_simp
  show ?thesis by (rule conjI[OF v enrichment_fills_missing_durations[OF v]])
qed

text \<open>
  C3, as stated, fails: a block from 9:00 to 9:30 that comes with \<^verbatim>\<open>duration_minutes: 45\<close>
  passes validation and keeps 45 after enrichment, where the difference is 30.
\<close>

theorem supplied_duration_kept_counterexample:
  "validateExtraction (Some (JObj [(''metadata'', JObj []), (''timeblocks'', JArr [
      JObj [(''day'', JStr ''Monday''), (''start_time'', JStr ''9:00''), (''end_time'', JStr ''9:30''),
            (''duration_minutes'', JNum 45), (''subject'', JStr ''Maths'')]])]))
   = Some (Valid (JObj [(''metadata'', JObj []), (''timeblocks'', JArr [
      JObj [(''day'', JStr ''Monday''), (''start_time'', JStr ''9:00''), (''end_time'', JStr ''9:30''),
            (''duration_minutes'', JNum 45), (''subject'', JStr ''Maths'')]])]) []) \<and>
   hour_min (JObj [(''day'', JStr ''Monday''), (''start_time'', JStr ''9:00''), (''end_time'', JStr ''9:30''),
            (''duration_minutes'', JNum 45), (''subject'', JStr ''Maths'')]) ''start_time'' = Some (9, 0) \<and>
   hour_min (JObj [(''day'', JStr ''Monday''), (''start_time'', JStr ''9:00''), (''end_time'', JStr ''9:30''),
            (''duration_minutes'', JNum 45), (''subject'', JStr ''Maths'')]) ''end_time'' = Some (9, 30) \<and>
   get_prop (JObj [(''day'', JStr ''Monday''), (''start_time'', JStr ''9:00''), (''end_time'', JStr ''9:30''),
            (''duration_minutes'', JNum 45), (''subject'', JStr ''Maths'')]) ''duration_minutes''
     \<noteq> Some (JNum (of_int ((9 * 60 + 30) - (9 * 60 + 0))))"
  by code_simp

section \<open>The request\<close>

text \<open>
  C5. When the schema accepts the candidate and no block ends at or before its start, a
  block that starts before 5 or ends after hour 23 does not block the result: validation
  is valid with a warning that names the block by its subject, \<^verbatim>\<open>processFile\<close> returns
  success with that warning under \<^verbatim>\<open>metadata.validationWarnings\<close>, and the controller
  answers 200 with the enriched data and that metadata.
\<close>

theorem out_of_hours_warning_attached:
  assumes "route_file e buf mt = (evs, Inr result)" "result_data result = Some cand"
    and "validateTimetable (Some cand) = Inr ()" "timeblocks_of (Some cand) = Some bs"
    and "validateTimeRanges bs = Some es" "filter is_hard es = []"
    and "b \<in> set bs" "hour_min b ''start_time'' = Some (sh, sm)"
      "hour_min b ''end_time'' = Some (eh, em)" "sh < 5 \<or> 23 < eh"
  shows "\<exists>enriched meta.
           validateExtraction (Some cand) = Some (Valid enriched (validationWarnings meta)) \<and>
           (get_prop b ''subject'', ''Time outside reasonable school hours'')
             \<in> set (validationWarnings meta) \<and>
           processFile e buf mt name = (evs, Inr (Extracted enriched meta)) \<and>
           extractTimetable e (Some \<lparr>buffer = buf, mimetype = mt, originalname = name\<rparr>) =
             (evs, \<lparr>status = 200, body = SuccessBody (Some enriched) (Some meta)\<rparr>)"
proof -
  let ?ws = "map summary (filter is_warning es)"
  let ?w = "\<lparr>block = b, error = ''Time outside reasonable school hours'',
             severity = Some ''warning''\<rparr>"
  from validateExtraction_no_hard[OF assms(3,4,5,6)] obtain enriched where
    v: "validateExtraction (Some cand) = Some (Valid enriched ?ws)" ..
  let ?m = "\<lparr>llm = result_metadata result, extractionMethod = result_extractionMethod result,
               filename = name, fileType = mt, validationWarnings = ?ws\<rparr>"
  from ranges_outside_hours[OF assms(5,7,8,9,10)] have "?w \<in> set (filter is_warning es)" by simp
  then have "summary ?w \<in> summary ` set (filter is_warning es)" by (rule imageI)
  moreover have "summary ?w = (get_prop b ''subject'', ''Time outside reasonable school hours'')"
    by (simp add: summary_def)
  ultimately have w: "(get_prop b ''subject'', ''Time outside reasonable school hours'') \<in> set ?ws"
    by (simp only: set_map)
  from v assms(2) have "validateExtraction (result_data result) = Some (Valid enriched ?ws)" by simp
  from processFile_valid[OF assms(1) this]
  have p: "processFile e buf mt name = (evs, Inr (Extracted enriched ?m))" .
  then have "processFile e (buffer \<lparr>buffer = buf, mimetype = mt, originalname = name\<rparr>)
     (mimetype \<lparr>buffer = buf, mimetype = mt, originalname = name\<rparr>)
     (originalname \<lparr>buffer = buf, mimetype = mt, originalname = name\<rparr>) = (evs, Inr (Extracted enriched ?m))"
    by simp
  from extractTimetable_returned[OF this]
  have x: "extractTimetable e (Some \<lparr>buffer = buf, mimetype = mt, originalname = name\<rparr>) =
             (evs, \<lparr>status = 200, body = SuccessBody (Some enriched) (Some ?m)\<rparr>)" by simp
  show ?thesis
  proof (intro exI conjI)
    show "validateExtraction (Some cand) = Some (Valid enriched (validationWarnings ?m))"
      using v by simp
    show "(get_prop b ''subject'', ''Time outside reasonable school hours'')
             \<in> set (validationWarnings ?m)"
      using w by simp
    show "processFile e buf mt name = (evs, Inr (Extracted enriched ?m))" by (rule p)
    show "extractTimetable e (Some \<lparr>buffer = buf, mimetype = mt, originalname = name\<rparr>) =
             (evs, \<lparr>status = 200, body = SuccessBody (Some enriched) (Some ?m)\<rparr>)"
      by (rule x)
  qed
qed

theorem out_of_hours_warning_attached_witness:
  "(4::int) < 5 \<and>
   (\<exists>enriched meta.
      validateExtraction (Some (JObj [(''metadata'', JObj []), (''timeblocks'', JArr [JObj [(''day'', JStr ''Monday''),
        (''start_time'', JStr ''4:00''), (''end_time'', JStr ''9:30''), (''subject'', JStr ''Maths'')]])]))
        = Some (Valid enriched (validationWarnings meta)) \<and>
      (get_prop (JObj [(''day'', JStr ''Monday''),
        (''start_time'', JStr ''4:00''), (''end_time'', JStr ''9:30''), (''subject'', JStr ''Maths'')]) ''subject'',
       ''Time outside reasonable school hours'') \<in> set (validationWarnings meta) \<and>
      processFile (sample_env True 90 []
        ''{\"metadata\":{},\"timeblocks\":[{\"day\":\"Monday\",\"start_time\":\"4:00\",\"end_time\":\"9:30\",\"subject\":\"Maths\"}]}'')
        ''img'' ''image/png'' ''t.png'' = ([ProcessImage, Sharp, VisionRequest], Inr (Extracted enriched meta)) \<and>
      extractTimetable (sample_env True 90 []
        ''{\"metadata\":{},\"timeblocks\":[{\"day\":\"Monday\",\"start_time\":\"4:00\",\"end_time\":\"9:30\",\"subject\":\"Maths\"}]}'')
        (Some \<lparr>buffer = ''img'', mimetype = ''image/png'', originalname = ''t.png''\<rparr>) =
        ([ProcessImage, Sharp, VisionRequest],
         \<lparr>status = 200, body = SuccessBody (Some enriched) (Some meta)\<rparr>))"
proof (rule conjI)
  let ?b = "JObj [(''day'', JStr ''Monday''), (''start_time'', JStr ''4:00''),
    (''end_time'', JStr ''9:30''), (''subject'', JStr ''Maths'')]"
  let ?c = "JObj [(''metadata'', JObj []), (''timeblocks'', JArr [?b])]"
  let ?e = "sample_env True 90 []
        ''{\"metadata\":{},\"timeblocks\":[{\"day\":\"Monday\",\"start_time\":\"4:00\",\"end_time\":\"9:30\",\"subject\":\"Maths\"}]}''"
  let ?r = "Parsed \<lparr>data = ?c, metadata = \<lparr>model = ''gpt-4o'', tokensUsed = 900\<rparr>\<rparr> ''claude-vision'' None"
  let ?w = "\<lparr>block = ?b, error = ''Time outside reasonable school hours'',
             severity = Some ''warning''\<rparr>"
  show "(4::int) < 5" by simp
  have 1: "route_file ?e ''img'' ''image/png'' = ([ProcessImage, Sharp, VisionRequest], Inr ?r)"
    by (rule sample_vision[OF sample_reply_early])
  have 2: "result_data ?r = Some ?c" by simp
  have 3: "validateTimetable (Some ?c) = Inr ()" by code_simp
  have 4: "timeblocks_of (Some ?c) = Some [?b]" by code_simp
  have 5: "validateTimeRanges [?b] = Some [?w]" by code_simp
  have 6: "filter is_hard [?w] = []" by simp
  have 7: "?b \<in> set [?b]" by simp
  have 8: "hour_min ?b ''start_time'' = Some (4, 0)" by code_simp
  have 9: "hour_min ?b ''end_time'' = Some (9, 30)" by code_simp
  have 10: "(4::int) < 5 \<or> (23::int) < 9" by simp
  show "\<exists>enriched meta.
      validateExtraction (Some ?c) = Some (Valid enriched (validationWarnings meta)) \<and>
      (get_prop ?b ''subject'', ''Time outside reasonable school hours'')
        \<in> set (validationWarnings meta) \<and>
      processFile ?e ''img'' ''image/png'' ''t.png'' =
        ([ProcessImage, Sharp, VisionRequest], Inr (Extracted enriched meta)) \<and>
      extractTimetable ?e (Some \<lparr>buffer = ''img'', mimetype = ''image/png'', originalname = ''t.png''\<rparr>) =
        ([ProcessImage, Sharp, VisionRequest],
         \<lparr>status = 200, body = SuccessBody (Some enriched) (Some meta)\<rparr>)"
    by (rule out_of_hours_warning_attached[OF 1 2 3 4 5 6 7 8 9 10])
qed

text \<open>
  C1, what the code does. When the data of the processor fails validation (a schema issue
  or a block that does not end after its start), \<^verbatim>\<open>processFile\<close> returns the object with
  \<^verbatim>\<open>code: 'VALIDATION_FAILED'\<close> instead of throwing it. The controller reads
  \<^verbatim>\<open>data\<close> and \<^verbatim>\<open>metadata\<close> off it, both undefined, and answers with status 200 and
  \<^verbatim>\<open>success: true\<close>. Its own mapping of \<^verbatim>\<open>VALIDATION_FAILED\<close> to 422 is never reached:
  no request is answered with 422.
\<close>

theorem hard_error_answered_200:
  assumes "fileFilter e f = None" "length (buffer f) \<le> maxFileSize e"
    and "route_file e (buffer f) (mimetype f) = (evs, Inr result)"
    and "validateExtraction (result_data result) = Some v" "\<not> isValid v"
  shows "processFile e (buffer f) (mimetype f) (originalname f) =
           (evs, Inr (ValidationFailed v (result_data result) (result_extractionMethod result))) \<and>
         post_extract e (Some f) = (evs, \<lparr>status = 200, body = SuccessBody None None\<rparr>) \<and>
         status (snd (post_extract e req)) \<noteq> 422"
proof -
  from processFile_invalid[OF assms(3,4,5)]
  have p: "processFile e (buffer f) (mimetype f) (originalname f) =
           (evs, Inr (ValidationFailed v (result_data result) (result_extractionMethod result)))" .
  from extractTimetable_returned[OF p] assms(1,2)
  have "post_extract e (Some f) = (evs, \<lparr>status = 200, body = SuccessBody None None\<rparr>)"
    by (simp add: post_extract_def)
  moreover from post_extract_status[of e req] have "status (snd (post_extract e req)) \<noteq> 422"
    by auto
  ultimately show ?thesis using p by simp
qed

theorem hard_error_answered_200_witness:
  "post_extract (sample_env True 90 [] ''{\"metadata\":{},\"timeblocks\":[]}'')
     (Some \<lparr>buffer = ''img'', mimetype = ''image/png'', originalname = ''t.png''\<rparr>)
   = ([ProcessImage, Sharp, VisionRequest], \<lparr>status = 200, body = SuccessBody None None\<rparr>) \<and>
   validateExtraction (Some (JObj [(''metadata'', JObj []), (''timeblocks'', JArr [])])) =
     Some (SchemaInvalid [([Key ''timeblocks''], ''At least one timeblock is required'')])"
proof -
  let ?e = "sample_env True 90 [] ''{\"metadata\":{},\"timeblocks\":[]}''"
  let ?f = "\<lparr>buffer = ''img'', mimetype = ''image/png'', originalname = ''t.png''\<rparr>"
  let ?c = "JObj [(''metadata'', JObj []), (''timeblocks'', JArr [])]"
  let ?r = "Parsed \<lparr>data = ?c, metadata = \<lparr>model = ''gpt-4o'', tokensUsed = 900\<rparr>\<rparr> ''claude-vision'' None"
  let ?v = "SchemaInvalid [([Key ''timeblocks''], ''At least one timeblock is required'')]"
  have v: "validateExtraction (Some ?c) = Some ?v" by code_simp
  have r: "route_file ?e (buffer ?f) (mimetype ?f) = ([ProcessImage, Sharp, VisionRequest], Inr ?r)"
    using sample_vision[OF sample_reply_empty] by simp
  have v': "validateExtraction (result_data ?r) = Some ?v" using v by simp
  have n: "\<not> isValid ?v" by simp
  from hard_error_answered_200[OF sample_env_accepts_png r v' n] v show ?thesis by simp
qed

section \<open>The processors\<close>

text \<open>
  C6. When pdf-parse returns a text whose trimmed length is at most 50, \<^verbatim>\<open>processPDF\<close>
  throws \<^verbatim>\<open>PDF_PROCESSING_FAILED\<close> with the message that asks for a PNG or JPEG instead,
  and \<^verbatim>\<open>processFile\<close> throws it on. The only calls made are the entry into the PDF
  processor and pdf-parse: no request to the model, no OCR, no image preprocessing.
\<close>

theorem scanned_pdf_rejected:
  assumes "pdfParse e buf = Inr text" "length (trim text) \<le> 50"
  shows "processPDF e buf =
           ([ProcessPDF, PdfParse],
            Inl \<lparr>code = Some ''PDF_PROCESSING_FAILED'',
                  message = Msg ''PDF appears to be a scanned image. Please convert to PNG/JPEG and upload again, or the PDF may be empty.'',
                  details = Text ''Failed to extract text from PDF. The file may be corrupted, password-protected, or a scanned image.''\<rparr>) \<and>
         processFile e buf ''application/pdf'' name =
           ([ProcessPDF, PdfParse],
            Inl \<lparr>code = Some ''PDF_PROCESSING_FAILED'',
                  message = Msg ''PDF appears to be a scanned image. Please convert to PNG/JPEG and upload again, or the PDF may be empty.'',
                  details = Text ''Failed to extract text from PDF. The file may be corrupted, password-protected, or a scanned image.''\<rparr>) \<and>
         set (fst (processFile e buf ''application/pdf'' name)) \<inter>
           {TextRequest, VisionRequest, OCR, Sharp} = {}"
proof -
  let ?err = "\<lparr>code = Some ''PDF_PROCESSING_FAILED'',
                  message = Msg ''PDF appears to be a scanned image. Please convert to PNG/JPEG and upload again, or the PDF may be empty.'',
                  details = Text ''Failed to extract text from PDF. The file may be corrupted, password-protected, or a scanned image.''\<rparr>"
  from assms have p: "processPDF e buf = ([ProcessPDF, PdfParse], Inl ?err)"
    by (simp add: processPDF_def pdf_failed_def Error_def)
  then have "route_file e buf ''application/pdf'' = ([ProcessPDF, PdfParse], Inl ?err)"
    by (simp add: route_file_pdf)
  from processFile_thrown[OF this]
  have "processFile e buf ''application/pdf'' name = ([ProcessPDF, PdfParse], Inl (processing_failed ?err))" .
  moreover have "processing_failed ?err = ?err" by (simp add: processing_failed_def)
  ultimately have f: "processFile e buf ''application/pdf'' name = ([ProcessPDF, PdfParse], Inl ?err)"
    by simp
  then have "set (fst (processFile e buf ''application/pdf'' name)) \<inter>
           {TextRequest, VisionRequest, OCR, Sharp} = {}" by simp
  with p f show ?thesis by simp
qed

theorem scanned_pdf_rejected_witness:
  "length (trim (replicate 50 CHR ''x'')) \<le> 50 \<and>
   processFile (sample_env True 90 (replicate 50 CHR ''x'') ''{}'') ''%PDF'' ''application/pdf'' ''t.pdf'' =
           ([ProcessPDF, PdfParse],
            Inl \<lparr>code = Some ''PDF_PROCESSING_FAILED'',
                  message = Msg ''PDF appears to be a scanned image. Please convert to PNG/JPEG and upload again, or the PDF may be empty.'',
                  details = Text ''Failed to extract text from PDF. The file may be corrupted, password-protected, or a scanned image.''\<rparr>)"
proof -
  have 1: "pdfParse (sample_env True 90 (replicate 50 CHR ''x'') ''{}'') ''%PDF'' = Inr (replicate 50 CHR ''x'')"
    by (simp add: sample_env_def)
  have 2: "length (trim (replicate 50 CHR ''x'')) \<le> 50" by code_simp
  from scanned_pdf_rejected[OF 1 2] 2 show ?thesis by blast
qed

text \<open>
  C7. With vision enabled and the key set, when the vision request throws and OCR is
  enabled, the image processor runs the OCR path once: after the one vision request there
  is one OCR call and at most one text request, and nothing else. If OCR returns a
  confidence below the threshold, or a text whose trimmed length is below 50, the processor
  throws \<^verbatim>\<open>IMAGE_PROCESSING_FAILED\<close> with the message of the failed check, and no text
  request is made. If the confidence reaches the threshold and the trimmed text has 50
  characters or more, the text that OCR read is sent to the model in one text request, and
  the processor returns the parsed reply with the method \<^verbatim>\<open>ocr + llm-text\<close> and the OCR
  confidence, or throws \<^verbatim>\<open>IMAGE_PROCESSING_FAILED\<close> with the message of what the text
  request threw. If OCR itself throws, the processor throws \<^verbatim>\<open>IMAGE_PROCESSING_FAILED\<close>
  with that message and makes no text request.
\<close>

theorem vision_failure_falls_back_once:
  assumes "enableLLMVision e" "isConfigured e" "enableOCR e"
    and "extractWithVision e (preprocessImage e buf) mt = (evs, Inl visionError)"
  shows "(fst (processImage e buf mt) = [ProcessImage, Sharp, VisionRequest, OCR] \<or>
          fst (processImage e buf mt) = [ProcessImage, Sharp, VisionRequest, OCR, TextRequest]) \<and>
         (\<forall>text confidence.
            performOCR e (preprocessImage e buf) = Inr (text, confidence) \<and>
            (confidence < ocrConfidenceThreshold e \<or> length (trim text) < 50) \<longrightarrow>
            processImage e buf mt =
              ([ProcessImage, Sharp, VisionRequest, OCR],
               Inl \<lparr>code = Some ''IMAGE_PROCESSING_FAILED'',
                     message = (if confidence < ocrConfidenceThreshold e
                                then OcrConfidenceTooLow confidence
                                else Msg ''Insufficient text extracted from image. Image may be unclear or contain no timetable data.''),
                     details = Text ''Failed to extract timetable from image. The image may be unclear, corrupted, or in an unsupported format.''\<rparr>)) \<and>
         (\<forall>text confidence.
            performOCR e (preprocessImage e buf) = Inr (text, confidence) \<and>
            \<not> confidence < ocrConfidenceThreshold e \<and> 50 \<le> length (trim text) \<longrightarrow>
            extractFromText e text =
              ([TextRequest],
               (case chat_text e text of
                  Inl err \<Rightarrow> Inl err
                | Inr response \<Rightarrow> parse_response response)) \<and>
            processImage e buf mt =
              ([ProcessImage, Sharp, VisionRequest, OCR, TextRequest],
               (case snd (extractFromText e text) of
                  Inl err \<Rightarrow>
                    Inl \<lparr>code = Some ''IMAGE_PROCESSING_FAILED'', message = message err,
                          details = Text ''Failed to extract timetable from image. The image may be unclear, corrupted, or in an unsupported format.''\<rparr>
                | Inr result \<Rightarrow> Inr (Parsed result ''ocr + llm-text'' (Some confidence))))) \<and>
         (\<forall>err.
            performOCR e (preprocessImage e buf) = Inl err \<longrightarrow>
            processImage e buf mt =
              ([ProcessImage, Sharp, VisionRequest, OCR],
               Inl \<lparr>code = Some ''IMAGE_PROCESSING_FAILED'', message = message err,
                     details = Text ''Failed to extract timetable from image. The image may be unclear, corrupted, or in an unsupported format.''\<rparr>))"
proof -
  let ?img = "preprocessImage e buf"
  from extractWithVision_events[OF assms(2), of ?img mt] assms(4) have evs: "evs = [VisionRequest]"
    by simp
  note fb = processImage_fallback[OF assms, unfolded evs]
  from extractWithOCR_events[OF assms(2), of ?img] fb
  have 1: "fst (processImage e buf mt) = [ProcessImage, Sharp, VisionRequest, OCR] \<or>
          fst (processImage e buf mt) = [ProcessImage, Sharp, VisionRequest, OCR, TextRequest]"
    by auto
  have 2: "processImage e buf mt =
              ([ProcessImage, Sharp, VisionRequest, OCR],
               Inl \<lparr>code = Some ''IMAGE_PROCESSING_FAILED'',
                     message = (if c < ocrConfidenceThreshold e
                                then OcrConfidenceTooLow c
                                else Msg ''Insufficient text extracted from image. Image may be unclear or contain no timetable data.''),
                     details = Text ''Failed to extract timetable from image. The image may be unclear, corrupted, or in an unsupported format.''\<rparr>)"
    if "performOCR e ?img = Inr (t, c)"
      "c < ocrConfidenceThreshold e \<or> length (trim t) < 50" for t c
    using fb extractWithOCR_low_quality[OF that] by (simp add: image_failed_def Error_def)
  have 3: "extractFromText e t =
              ([TextRequest],
               (case chat_text e t of
                  Inl err \<Rightarrow> Inl err
                | Inr response \<Rightarrow> parse_response response)) \<and>
            processImage e buf mt =
              ([ProcessImage, Sharp, VisionRequest, OCR, TextRequest],
               (case snd (extractFromText e t) of
                  Inl err \<Rightarrow>
                    Inl \<lparr>code = Some ''IMAGE_PROCESSING_FAILED'', message = message err,
                          details = Text ''Failed to extract timetable from image. The image may be unclear, corrupted, or in an unsupported format.''\<rparr>
                | Inr result \<Rightarrow> Inr (Parsed result ''ocr + llm-text'' (Some c))))"
    if "performOCR e ?img = Inr (t, c)" "\<not> c < ocrConfidenceThreshold e"
      "50 \<le> length (trim t)" for t c
  proof
    from assms(2) show x: "extractFromText e t =
              ([TextRequest],
               (case chat_text e t of
                  Inl err \<Rightarrow> Inl err
                | Inr response \<Rightarrow> parse_response response))"
      by (simp add: extractFromText_def isConfigured_def split: sum.splits)
    from fb extractWithOCR_good[OF assms(2) that] x
    show "processImage e buf mt =
              ([ProcessImage, Sharp, VisionRequest, OCR, TextRequest],
               (case snd (extractFromText e t) of
                  Inl err \<Rightarrow>
                    Inl \<lparr>code = Some ''IMAGE_PROCESSING_FAILED'', message = message err,
                          details = Text ''Failed to extract timetable from image. The image may be unclear, corrupted, or in an unsupported format.''\<rparr>
                | Inr result \<Rightarrow> Inr (Parsed result ''ocr + llm-text'' (Some c))))"
      by (simp add: image_failed_def split: sum.splits)
  qed
  have 4: "processImage e buf mt =
              ([ProcessImage, Sharp, VisionRequest, OCR],
               Inl \<lparr>code = Some ''IMAGE_PROCESSING_FAILED'', message = message err,
                     details = Text ''Failed to extract timetable from image. The image may be unclear, corrupted, or in an unsupported format.''\<rparr>)"
    if "performOCR e ?img = Inl err" for err
    using fb extractWithOCR_thrown[OF that] by (simp add: image_failed_def)
  from 1 2 3 4 show ?thesis by blast
qed

theorem vision_failure_falls_back_once_witness:
  "enableOCR (sample_env False 40 (replicate 60 CHR ''x'') ''{}'') \<and>
   processImage (sample_env False 40 (replicate 60 CHR ''x'') ''{}'') ''img'' ''image/png'' =
     ([ProcessImage, Sharp, VisionRequest, OCR],
      Inl \<lparr>code = Some ''IMAGE_PROCESSING_FAILED'', message = OcrConfidenceTooLow (2 / 5),
            details = Text ''Failed to extract timetable from image. The image may be unclear, corrupted, or in an unsupported format.''\<rparr>) \<and>
   50 \<le> length (trim (replicate 60 CHR ''x'')) \<and>
   processImage (sample_env False 90 (replicate 60 CHR ''x'') ''{}'') ''img'' ''image/png'' =
     ([ProcessImage, Sharp, VisionRequest, OCR, TextRequest],
      Inr (Parsed \<lparr>data = JObj [], metadata = \<lparr>model = ''gpt-4o'', tokensUsed = 900\<rparr>\<rparr>
             ''ocr + llm-text'' (Some (9 / 10)))) \<and>
   processImage ((sample_env False 90 (replicate 60 CHR ''x'') ''{}'')
                   \<lparr>recognize := (\<lambda>b. Inl (Error (Msg ''worker failed'')))\<rparr>) ''img'' ''image/png'' =
     ([ProcessImage, Sharp, VisionRequest, OCR],
      Inl \<lparr>code = Some ''IMAGE_PROCESSING_FAILED'', message = Msg ''worker failed'',
            details = Text ''Failed to extract timetable from image. The image may be unclear, corrupted, or in an unsupported format.''\<rparr>)"
proof -
  let ?e = "sample_env False 40 (replicate 60 CHR ''x'') ''{}''"
  let ?g = "sample_env False 90 (replicate 60 CHR ''x'') ''{}''"
  let ?h = "?g\<lparr>recognize := (\<lambda>b. Inl (Error (Msg ''worker failed'')))\<rparr>"
  have 1: "enableLLMVision ?e" and 2: "isConfigured ?e" and 3: "enableOCR ?e"
    by (simp_all add: sample_env_def isConfigured_def)
  have 4: "extractWithVision ?e (preprocessImage ?e ''img'') ''image/png'' =
             ([VisionRequest], Inl (Error (Msg ''Connection error.'')))"
    by (simp add: sample_env_def extractWithVision_def)
  have 5: "performOCR ?e (preprocessImage ?e ''img'') = Inr (replicate 60 CHR ''x'', 2 / 5)"
    by (simp add: sample_env_def performOCR_def)
  have 6: "(2 / 5 :: rat) < ocrConfidenceThreshold ?e" by (simp add: sample_env_def)
  from vision_failure_falls_back_once[OF 1 2 3 4] 5 6
  have "processImage ?e ''img'' ''image/png'' =
     ([ProcessImage, Sharp, VisionRequest, OCR],
      Inl \<lparr>code = Some ''IMAGE_PROCESSING_FAILED'',
            message = (if (2 / 5 :: rat) < ocrConfidenceThreshold ?e then OcrConfidenceTooLow (2 / 5)
                       else Msg ''Insufficient text extracted from image. Image may be unclear or contain no timetable data.''),
            details = Text ''Failed to extract timetable from image. The image may be unclear, corrupted, or in an unsupported format.''\<rparr>)"
    by blast
  with 6 have low: "processImage ?e ''img'' ''image/png'' =
     ([ProcessImage, Sharp, VisionRequest, OCR],
      Inl \<lparr>code = Some ''IMAGE_PROCESSING_FAILED'', message = OcrConfidenceTooLow (2 / 5),
            details = Text ''Failed to extract timetable from image. The image may be unclear, corrupted, or in an unsupported format.''\<rparr>)"
    by simp
  have g1: "enableLLMVision ?g" and g2: "isConfigured ?g" and g3: "enableOCR ?g"
    by (simp_all add: sample_env_def isConfigured_def)
  have g4: "extractWithVision ?g (preprocessImage ?g ''img'') ''image/png'' =
             ([VisionRequest], Inl (Error (Msg ''Connection error.'')))"
    by (simp add: sample_env_def extractWithVision_def)
  have g5: "performOCR ?g (preprocessImage ?g ''img'') = Inr (replicate 60 CHR ''x'', 9 / 10)"
    by (simp add: sample_env_def performOCR_def)
  have g6: "\<not> (9 / 10 :: rat) < ocrConfidenceThreshold ?g" by (simp add: sample_env_def)
  have g7: "50 \<le> length (trim (replicate 60 CHR ''x''))" by code_simp
  have g8: "snd (extractFromText ?g (replicate 60 CHR ''x'')) =
              Inr \<lparr>data = JObj [], metadata = \<lparr>model = ''gpt-4o'', tokensUsed = 900\<rparr>\<rparr>"
    using sample_reply_braces
    by (simp add: extractFromText_def parse_response_def sample_env_def)
  from vision_failure_falls_back_once[OF g1 g2 g3 g4] g5 g6 g7
  have "processImage ?g ''img'' ''image/png'' =
              ([ProcessImage, Sharp, VisionRequest, OCR, TextRequest],
               (case snd (extractFromText ?g (replicate 60 CHR ''x'')) of
                  Inl err \<Rightarrow>
                    Inl \<lparr>code = Some ''IMAGE_PROCESSING_FAILED'', message = message err,
                          details = Text ''Failed to extract timetable from image. The image may be unclear, corrupted, or in an unsupported format.''\<rparr>
                | Inr result \<Rightarrow> Inr (Parsed result ''ocr + llm-text'' (Some (9 / 10)))))"
    by blast
  then have good: "processImage ?g ''img'' ''image/png'' =
     ([ProcessImage, Sharp, VisionRequest, OCR, TextRequest],
      Inr (Parsed \<lparr>data = JObj [], metadata = \<lparr>model = ''gpt-4o'', tokensUsed = 900\<rparr>\<rparr>
             ''ocr + llm-text'' (Some (9 / 10))))"
    by (simp only: g8 sum.case)
  have h1: "enableLLMVision ?h" and h2: "isConfigured ?h" and h3: "enableOCR ?h"
    by (simp_all add: sample_env_def isConfigured_def)
  have h4: "extractWithVision ?h (preprocessImage ?h ''img'') ''image/png'' =
             ([VisionRequest], Inl (Error (Msg ''Connection error.'')))"
    by (simp add: sample_env_def extractWithVision_def)
  have h5: "performOCR ?h (preprocessImage ?h ''img'') = Inl (Error (Msg ''worker failed''))"
    by (simp add: sample_env_def performOCR_def)
  from vision_failure_falls_back_once[OF h1 h2 h3 h4] h5
  have "processImage ?h ''img'' ''image/png'' =
     ([ProcessImage, Sharp, VisionRequest, OCR],
      Inl \<lparr>code = Some ''IMAGE_PROCESSING_FAILED'', message = message (Error (Msg ''worker failed'')),
            details = Text ''Failed to extract timetable from image. The image may be unclear, corrupted, or in an unsupported format.''\<rparr>)"
    by blast
  then have thrown: "processImage ?h ''img'' ''image/png'' =
     ([ProcessImage, Sharp, VisionRequest, OCR],
      Inl \<lparr>code = Some ''IMAGE_PROCESSING_FAILED'', message = Msg ''worker failed'',
            details = Text ''Failed to extract timetable from image. The image may be unclear, corrupted, or in an unsupported format.''\<rparr>)"
    by (simp add: Error_def)
  from 3 low g7 good thrown show ?thesis by (intro conjI)
qed

section \<open>The router\<close>

text \<open>
  C2, as the code has it. An upload of type \<^verbatim>\<open>image/gif\<close> is stopped by the upload filter
  when the list of allowed types does not hold it (the default list does not): the answer
  is 415 with \<^verbatim>\<open>UNSUPPORTED_FILE_TYPE\<close> and a message that lists the allowed types, and
  nothing is processed. \<^verbatim>\<open>processFile\<close> itself routes every type that starts with
  \<^verbatim>\<open>image/\<close>, \<^verbatim>\<open>image/gif\<close> among them, to the image processor: for every such type it
  enters the image processor and preprocesses the image, never enters the PDF processor,
  and fails, if it fails, with \<^verbatim>\<open>IMAGE_PROCESSING_FAILED\<close>. A type that neither starts with
  \<^verbatim>\<open>image/\<close> nor is \<^verbatim>\<open>application/pdf\<close> is thrown by the router as
  \<^verbatim>\<open>UNSUPPORTED_FILE_TYPE\<close>, with the supported types in the details, before any
  processor is entered.
\<close>

theorem gif_stopped_by_upload_filter:
  "(mimetype f = ''image/gif'' \<and> ''image/gif'' \<notin> set (allowedFileTypes e) \<longrightarrow>
      post_extract e (Some f) =
        ([], \<lparr>status = 415,
               body = ErrorBody ''UNSUPPORTED_FILE_TYPE''
                 (Msg (''File type image/gif is not supported. Allowed types: '' @
                       join '', '' (allowedFileTypes e))) NoDetails\<rparr>)) \<and>
   (startsWith mt ''image/'' \<longrightarrow>
      route_file e buf mt = processImage e buf mt \<and>
      take 2 (fst (processFile e buf mt name)) = [ProcessImage, Sharp] \<and>
      ProcessPDF \<notin> set (fst (processFile e buf mt name)) \<and>
      PdfParse \<notin> set (fst (processFile e buf mt name)) \<and>
      (\<forall>err. snd (processFile e buf mt name) = Inl err \<longrightarrow>
         code err = Some ''IMAGE_PROCESSING_FAILED'')) \<and>
   (\<not> startsWith other ''image/'' \<and> other \<noteq> ''application/pdf'' \<longrightarrow>
      route_file e buf other =
        ([], Inl \<lparr>code = Some ''UNSUPPORTED_FILE_TYPE'',
                   message = Msg (''File type '' @ other @ '' is not supported''),
                   details = Text ''Supported types: image/png, image/jpeg, application/pdf''\<rparr>)) \<and>
   startsWith ''image/gif'' ''image/'' \<and>
   route_file e buf ''image/gif'' = processImage e buf ''image/gif'' \<and>
   take 2 (fst (processFile e buf ''image/gif'' name)) = [ProcessImage, Sharp] \<and>
   ProcessPDF \<notin> set (fst (processFile e buf ''image/gif'' name)) \<and>
   PdfParse \<notin> set (fst (processFile e buf ''image/gif'' name)) \<and>
   (\<forall>err. snd (processFile e buf ''image/gif'' name) = Inl err \<longrightarrow>
      code err = Some ''IMAGE_PROCESSING_FAILED'')"
proof -
  have a: "post_extract e (Some f) =
        ([], \<lparr>status = 415,
               body = ErrorBody ''UNSUPPORTED_FILE_TYPE''
                 (Msg (''File type image/gif is not supported. Allowed types: '' @
                       join '', '' (allowedFileTypes e))) NoDetails\<rparr>)"
    if "mimetype f = ''image/gif''" "''image/gif'' \<notin> set (allowedFileTypes e)"
    using that by (simp add: post_extract_def fileFilter_def)
  have g: "startsWith ''image/gif'' ''image/''" by (simp add: startsWith_def)
  have b: "route_file e buf m = processImage e buf m \<and>
      take 2 (fst (processFile e buf m name)) = [ProcessImage, Sharp] \<and>
      ProcessPDF \<notin> set (fst (processFile e buf m name)) \<and>
      PdfParse \<notin> set (fst (processFile e buf m name)) \<and>
      (\<forall>err. snd (processFile e buf m name) = Inl err \<longrightarrow>
         code err = Some ''IMAGE_PROCESSING_FAILED'')"
    if "startsWith m ''image/''" for m
    using route_file_image[OF that] processFile_image[OF that] by blast
  have c: "route_file e buf other =
        ([], Inl \<lparr>code = Some ''UNSUPPORTED_FILE_TYPE'',
                   message = Msg (''File type '' @ other @ '' is not supported''),
                   details = Text ''Supported types: image/png, image/jpeg, application/pdf''\<rparr>)"
    if "\<not> startsWith other ''image/''" "other \<noteq> ''application/pdf''"
    using that by (rule route_file_other)
  from a b[of mt] b[OF g] c g show ?thesis by blast
qed

theorem gif_stopped_by_upload_filter_witness:
  "''image/gif'' \<notin> set (allowedFileTypes (sample_env True 90 [] ''{}'')) \<and>
   post_extract (sample_env True 90 [] ''{}'')
     (Some \<lparr>buffer = ''GIF89a'', mimetype = ''image/gif'', originalname = ''t.gif''\<rparr>) =
     ([], \<lparr>status = 415,
            body = ErrorBody ''UNSUPPORTED_FILE_TYPE''
              (Msg ''File type image/gif is not supported. Allowed types: image/png, image/jpeg, application/pdf'')
              NoDetails\<rparr>) \<and>
   startsWith ''image/webp'' ''image/'' \<and>
   route_file (sample_env True 90 [] ''{}'') ''RIFF'' ''image/webp'' =
     processImage (sample_env True 90 [] ''{}'') ''RIFF'' ''image/webp'' \<and>
   take 2 (fst (processFile (sample_env True 90 [] ''{}'') ''RIFF'' ''image/webp'' ''t.webp'')) =
     [ProcessImage, Sharp] \<and>
   \<not> startsWith ''text/plain'' ''image/'' \<and>
   route_file (sample_env True 90 [] ''{}'') ''RIFF'' ''text/plain'' =
     ([], Inl \<lparr>code = Some ''UNSUPPORTED_FILE_TYPE'',
                message = Msg ''File type text/plain is not supported'',
                details = Text ''Supported types: image/png, image/jpeg, application/pdf''\<rparr>)"
proof -
  let ?e = "sample_env True 90 [] ''{}''"
  let ?f = "\<lparr>buffer = ''GIF89a'', mimetype = ''image/gif'', originalname = ''t.gif''\<rparr>"
  have 1: "mimetype ?f = ''image/gif''" by simp
  have 2: "''image/gif'' \<notin> set (allowedFileTypes ?e)" by (simp add: sample_env_def)
  have 3: "join '', '' (allowedFileTypes ?e) = ''image/png, image/jpeg, application/pdf''"
    by (simp add: sample_env_def)
  have 4: "startsWith ''image/webp'' ''image/''" by (simp add: startsWith_def)
  have 5: "\<not> startsWith ''text/plain'' ''image/'' \<and> ''text/plain'' \<noteq> ''application/pdf''"
    by (simp add: startsWith_def)
  note T = gif_stopped_by_upload_filter[of ?f ?e "''image/webp''" "''RIFF''" "''t.webp''" "''text/plain''"]
  from T 1 2
  have a: "post_extract ?e (Some ?f) =
        ([], \<lparr>status = 415,
               body = ErrorBody ''UNSUPPORTED_FILE_TYPE''
                 (Msg (''File type image/gif is not supported. Allowed types: '' @
                       join '', '' (allowedFileTypes ?e))) NoDetails\<rparr>)"
    by blast
  from T 4 have b: "route_file ?e ''RIFF'' ''image/webp'' = processImage ?e ''RIFF'' ''image/webp''"
    "take 2 (fst (processFile ?e ''RIFF'' ''image/webp'' ''t.webp'')) = [ProcessImage, Sharp]"
    by blast+
  from T 5 have c: "route_file ?e ''RIFF'' ''text/plain'' =
     ([], Inl \<lparr>code = Some ''UNSUPPORTED_FILE_TYPE'',
                message = Msg (''File type '' @ ''text/plain'' @ '' is not supported''),
                details = Text ''Supported types: image/png, image/jpeg, application/pdf''\<rparr>)"
    by blast
  from a b c 2 3 4 5 show ?thesis by simp
qed

text \<open>
  C2, as stated, fails: given \<^verbatim>\<open>image/gif\<close>, \<^verbatim>\<open>processFile\<close> invokes the image processor,
  which sends the image to the model, and it returns instead of throwing.
\<close>

theorem gif_reaches_image_processor_counterexample:
  "fst (processFile (sample_env True 90 [] ''{}'') ''GIF89a'' ''image/gif'' ''t.gif'') =
     [ProcessImage, Sharp, VisionRequest] \<and>
   \<not> isl (snd (processFile (sample_env True 90 [] ''{}'') ''GIF89a'' ''image/gif'' ''t.gif''))"
proof -
  let ?e = "sample_env True 90 [] ''{}''"
  let ?r = "Parsed \<lparr>data = JObj [], metadata = \<lparr>model = ''gpt-4o'', tokensUsed = 900\<rparr>\<rparr>
              ''claude-vision'' None"
  have r: "route_file ?e ''GIF89a'' ''image/gif'' = ([ProcessImage, Sharp, VisionRequest], Inr ?r)"
    using sample_reply_braces
    by (simp add: route_file_def startsWith_def processImage_def extractWithVision_def
        parse_response_def isConfigured_def sample_env_def)
  have v: "validateExtraction (result_data ?r) =
             Some (SchemaInvalid [([Key ''metadata''], ''invalid_type''),
                                  ([Key ''timeblocks''], ''invalid_type'')])"
    by code_simp
  from processFile_invalid[OF r v] show ?thesis by simp
qed

section \<open>The model clients\<close>

text \<open>
  C8, as the code has it. The client the processors call (OpenAI, JSON mode) parses the
  whole reply with \<^verbatim>\<open>JSON.parse\<close>, in the vision path and in the text path alike, and the
  parse error is thrown on; a reply whose first character after white space cannot start a
  JSON value, as when prose comes first, always fails. The second client (Anthropic), in
  both of its paths, takes the span from the first opening brace to the last closing
  brace, throws its own error when there is none, and parses the span.
\<close>

theorem reply_parsing_per_client:
  "(openaiApiKey e \<and> chat_image e img mt = Inr r \<and> chat_text e t = Inr r \<longrightarrow>
      snd (extractWithVision e img mt) = snd (extractFromText e t) \<and>
      snd (extractWithVision e img mt) =
        (case JSON_parse (content r) of
           None \<Rightarrow> Inl (Error SyntaxErrorMessage)
         | Some d \<Rightarrow> Inr \<lparr>data = d,
                           metadata = \<lparr>model = ''gpt-4o'', tokensUsed = total_tokens r\<rparr>\<rparr>)) \<and>
   (skip_ws (content r) = c # rest \<and> c \<notin> set ''{[tfn-0123456789'' \<and> c \<noteq> CHR 0x22 \<longrightarrow>
      parse_response r = Inl (Error SyntaxErrorMessage)) \<and>
   (chat_image e img mt = Inr r \<and> chat_text e t = Inr r \<longrightarrow>
      snd (extractWithVision_claude True e img mt) = snd (extractFromText_claude True e t) \<and>
      snd (extractWithVision_claude True e img mt) =
        (case jsonMatch (content r) of
           None \<Rightarrow> Inl (Error (Msg ''Failed to extract JSON from LLM response''))
         | Some m \<Rightarrow>
             (case JSON_parse m of
                None \<Rightarrow> Inl (Error SyntaxErrorMessage)
              | Some d \<Rightarrow> Inr \<lparr>data = d,
                                metadata = \<lparr>model = ''gpt-4o'', tokensUsed = total_tokens r\<rparr>\<rparr>))) \<and>
   (jsonMatch (content r) = None \<longleftrightarrow>
      CHR ''}'' \<notin> set (dropWhile (\<lambda>c. c \<noteq> CHR ''{'') (content r))) \<and>
   (\<forall>m. jsonMatch (content r) = Some m \<longrightarrow>
      (\<exists>pre post. content r = pre @ m @ post \<and> CHR ''{'' \<notin> set pre \<and> CHR ''}'' \<notin> set post \<and>
         hd m = CHR ''{'' \<and> last m = CHR ''}''))"
proof (intro conjI impI allI)
  assume a: "openaiApiKey e \<and> chat_image e img mt = Inr r \<and> chat_text e t = Inr r"
  then have v: "extractWithVision e img mt = ([VisionRequest], parse_response r)"
    and x: "extractFromText e t = ([TextRequest], parse_response r)"
    by (simp_all add: extractWithVision_reply extractFromText_reply)
  from v x show "snd (extractWithVision e img mt) = snd (extractFromText e t)" by simp
  from v show "snd (extractWithVision e img mt) =
        (case JSON_parse (content r) of
           None \<Rightarrow> Inl (Error SyntaxErrorMessage)
         | Some d \<Rightarrow> Inr \<lparr>data = d,
                           metadata = \<lparr>model = ''gpt-4o'', tokensUsed = total_tokens r\<rparr>\<rparr>)"
    by (simp add: parse_response_def)
next
  assume "skip_ws (content r) = c # rest \<and> c \<notin> set ''{[tfn-0123456789'' \<and> c \<noteq> CHR 0x22"
  then have "JSON_parse (content r) = None" by (blast intro: JSON_parse_bad_start)
  then show "parse_response r = Inl (Error SyntaxErrorMessage)" by (simp add: parse_response_def)
next
  assume a: "chat_image e img mt = Inr r \<and> chat_text e t = Inr r"
  then have v: "extractWithVision_claude True e img mt = ([VisionRequest], parse_response_claude r)"
    and x: "extractFromText_claude True e t = ([TextRequest], parse_response_claude r)"
    by (simp_all add: extractWithVision_claude_reply extractFromText_claude_reply)
  from v x show "snd (extractWithVision_claude True e img mt) = snd (extractFromText_claude True e t)"
    by simp
  from v show "snd (extractWithVision_claude True e img mt) =
        (case jsonMatch (content r) of
           None \<Rightarrow> Inl (Error (Msg ''Failed to extract JSON from LLM response''))
         | Some m \<Rightarrow>
             (case JSON_parse m of
                None \<Rightarrow> Inl (Error SyntaxErrorMessage)
              | Some d \<Rightarrow> Inr \<lparr>data = d,
                                metadata = \<lparr>model = ''gpt-4o'', tokensUsed = total_tokens r\<rparr>\<rparr>))"
    by (simp add: parse_response_claude_def)
next
  show "jsonMatch (content r) = None \<longleftrightarrow>
      CHR ''}'' \<notin> set (dropWhile (\<lambda>c. c \<noteq> CHR ''{'') (content r))"
    by (rule jsonMatch_None)
next
  fix m assume "jsonMatch (content r) = Some m"
  then show "\<exists>pre post. content r = pre @ m @ post \<and> CHR ''{'' \<notin> set pre \<and> CHR ''}'' \<notin> set post \<and>
         hd m = CHR ''{'' \<and> last m = CHR ''}''"
    by (rule jsonMatch_Some)
qed

theorem reply_parsing_per_client_witness:
  "skip_ws ''Result: {}'' = CHR ''R'' # ''esult: {}'' \<and>
   jsonMatch ''Result: {}'' = Some ''{}'' \<and>
   parse_response \<lparr>content = ''Result: {}'', total_tokens = 900\<rparr> = Inl (Error SyntaxErrorMessage) \<and>
   snd (extractWithVision (sample_env True 90 [] ''Result: {}'') ''img'' ''image/png'') =
     snd (extractFromText (sample_env True 90 [] ''Result: {}'') ''Monday 9:00 Maths'') \<and>
   snd (extractWithVision_claude True (sample_env True 90 [] ''Result: {}'') ''img'' ''image/png'') =
     snd (extractFromText_claude True (sample_env True 90 [] ''Result: {}'') ''Monday 9:00 Maths'') \<and>
   (\<exists>pre post. ''Result: {}'' = pre @ ''{}'' @ post \<and> CHR ''{'' \<notin> set pre \<and> CHR ''}'' \<notin> set post)"
proof -
  let ?e = "sample_env True 90 [] ''Result: {}''"
  let ?r = "\<lparr>content = ''Result: {}'', total_tokens = 900\<rparr>"
  have 1: "openaiApiKey ?e \<and> chat_image ?e ''img'' ''image/png'' = Inr ?r \<and>
           chat_text ?e ''Monday 9:00 Maths'' = Inr ?r"
    by (simp add: sample_env_def)
  have 2: "skip_ws (content ?r) = CHR ''R'' # ''esult: {}'' \<and>
           CHR ''R'' \<notin> set ''{[tfn-0123456789'' \<and> CHR ''R'' \<noteq> CHR 0x22"
    by (simp add: skip_ws_def is_ws_def)
  have 3: "jsonMatch (content ?r) = Some ''{}''" using sample_prose_reply(2) by simp
  note T = reply_parsing_per_client[of ?e "''img''" "''image/png''" ?r "''Monday 9:00 Maths''"
      "CHR ''R''" "''esult: {}''"]
  from T 1 have a: "snd (extractWithVision ?e ''img'' ''image/png'') =
     snd (extractFromText ?e ''Monday 9:00 Maths'')" by blast
  from T 2 have b: "parse_response ?r = Inl (Error SyntaxErrorMessage)" by blast
  from T 1 have c: "snd (extractWithVision_claude True ?e ''img'' ''image/png'') =
     snd (extractFromText_claude True ?e ''Monday 9:00 Maths'')" by blast
  from T 3 have d: "\<exists>pre post. content ?r = pre @ ''{}'' @ post \<and> CHR ''{'' \<notin> set pre \<and>
      CHR ''}'' \<notin> set post \<and> hd ''{}'' = CHR ''{'' \<and> last ''{}'' = CHR ''}''" by blast
  from 2 3 a b c d show ?thesis by simp
qed

text \<open>
  C8, as stated, fails: on the reply \<^verbatim>\<open>Result: {}\<close> the OpenAI client throws in both
  paths where the Anthropic client returns the object, and on \<^verbatim>\<open>{} or {}\<close> the
  Anthropic client throws although the first brace-delimited object is valid JSON.
\<close>

theorem reply_parsing_counterexample:
  "extractWithVision (sample_env True 90 [] ''Result: {}'') ''img'' ''image/png'' =
     ([VisionRequest], Inl (Error SyntaxErrorMessage)) \<and>
   extractFromText (sample_env True 90 [] ''Result: {}'') ''Monday 9:00 Maths'' =
     ([TextRequest], Inl (Error SyntaxErrorMessage)) \<and>
   extractWithVision_claude True (sample_env True 90 [] ''Result: {}'') ''img'' ''image/png'' =
     ([VisionRequest],
      Inr \<lparr>data = JObj [], metadata = \<lparr>model = ''gpt-4o'', tokensUsed = 900\<rparr>\<rparr>) \<and>
   extractWithVision_claude True (sample_env True 90 [] ''{} or {}'') ''img'' ''image/png'' =
     ([VisionRequest], Inl (Error SyntaxErrorMessage))"
  using sample_prose_reply sample_reply_braces
  by (simp add: extractWithVision_def extractFromText_def extractWithVision_claude_def
      parse_response_def parse_response_claude_def sample_env_def)

end
